theory Spec2Isabelle
  imports Main "HOL-Library.Word"
begin

section \<open>The Azure scale-set driver (azure\_scale\_set.go)\<close>

text \<open>
  A shallow embedding of \<^verbatim>\<open>cluster-autoscaler/cloudprovider/azure/azure_scale_set.go\<close>:
  the size cache (\<^verbatim>\<open>getVMSSInfo\<close>, \<^verbatim>\<open>getCurSize\<close>, \<^verbatim>\<open>TargetSize\<close>), the changes of
  capacity (\<^verbatim>\<open>SetScaleSetSize\<close>, \<^verbatim>\<open>IncreaseSize\<close>) with their waiter, the deletions
  (\<^verbatim>\<open>Belongs\<close>, \<^verbatim>\<open>DeleteInstances\<close>, \<^verbatim>\<open>DeleteNodes\<close>) with theirs, and the rebuild of the
  instance cache (\<^verbatim>\<open>buildInstanceCache\<close>). Each method of \<^verbatim>\<open>ScaleSet\<close> becomes a function
  from the world before the call to an outcome and the world after it. The world holds
  the receiver's fields, the process-wide \<^verbatim>\<open>scaleSetStatusCache\<close>, the mutexes the calling
  goroutine holds, the log of the backend calls issued so far and the goroutines started
  with \<^verbatim>\<open>go\<close>. Logging and the contexts of the calls are left out.

  Go's \<^verbatim>\<open>int64\<close> is a 64-bit word, and so is \<^verbatim>\<open>int\<close> on the 64-bit platforms the
  autoscaler is built for: \<open>+\<close> and \<open>-\<close> wrap around, comparisons are the signed ones.
  Instants and durations (\<^verbatim>\<open>time.Time\<close>, \<^verbatim>\<open>time.Duration\<close>) are integers counting
  nanoseconds; \<^verbatim>\<open>t.Add(d).After(u)\<close> is \<open>u < t + d\<close>.
\<close>

subsection \<open>Data\<close>

type_synonym int64 = "64 word"
type_synonym time = int
type_synonym duration = int

text \<open>The four mutexes of the file: two fields of \<^verbatim>\<open>ScaleSet\<close>, the one inside
  \<^verbatim>\<open>scaleSetStatusCache\<close> and the package-level \<^verbatim>\<open>vmssSizeMutex\<close>.\<close>

datatype lock = SizeMutex | InstanceMutex | StatusCacheMutex | VmssSizeMutex

text \<open>\<^verbatim>\<open>cloudprovider.Instance\<close>: \<^verbatim>\<open>Status\<close> is a pointer, \<open>None\<close> is \<^verbatim>\<open>nil\<close>.\<close>

datatype InstanceState = InstanceRunning | InstanceCreating | InstanceDeleting

record Instance =
  InstId :: string
  InstStatus :: "InstanceState option"


record Sku =
  SkuName :: "string option"
  Capacity :: "int64 option"

record VirtualMachineScaleSet =
  VmssName :: "string option"
  VmssSku :: "Sku option"
  Location :: "string option"

text \<open>\<^verbatim>\<open>apiv1.Node\<close>, the two fields the driver reads; \<^verbatim>\<open>azureRef\<close> is its \<^verbatim>\<open>Name\<close>.\<close>

record Node =
  NodeName :: string
  ProviderID :: string

type_synonym azureRef = string

text \<open>The errors. The first eight are the \<^verbatim>\<open>fmt.Errorf\<close> values of this file, in the order
  they appear; \<open>DetailedError\<close> is an \<^verbatim>\<open>autorest.DetailedError\<close> with its HTTP status
  code and \<open>OpaqueError\<close> any other error value handed back by the SDK, the manager or
  a helper.\<close>

datatype error =
    CouldNotFindVmss string
  | SizeIncreaseMustBePositive
  | UnderInitialization string
  | SizeIncreaseTooLarge int64 int64
  | NoKnownScaleSet string
  | NotSameScaleSet string string
  | MinSizeReached
  | DifferentAsg string string
  | DetailedError int
  | OpaqueError string

text \<open>The backend calls of \<^verbatim>\<open>virtualMachineScaleSetsClient\<close>, with their arguments
  (the context apart).\<close>

datatype call =
    List string
  | CreateOrUpdateAsync string string VirtualMachineScaleSet
  | DeleteInstancesAsync string string "string list"

text \<open>The goroutines the driver starts.\<close>

datatype observer =
    WaitForUpdateVMSSCapacity
  | WaitForDeleteInstances "string list"

record ScaleSet =
  Name :: string
  minSize :: int64
  maxSize :: int64
  curSize :: int64
  lastSizeRefresh :: time
  sizeRefreshPeriod :: duration
  instanceCache :: "Instance list"
  lastInstanceRefresh :: time

record StatusCache =
  lastRefresh :: time
  scaleSets :: "string \<rightharpoonup> VirtualMachineScaleSet"

text \<open>
  The world of one goroutine. \<open>held\<close> lists the mutexes it holds, \<open>calls\<close> every backend
  call issued so far together with the mutexes held when it was issued, \<open>nowCalls\<close> how
  often \<^verbatim>\<open>time.Now()\<close> has been read.
\<close>

record world =
  scaleSet :: ScaleSet
  scaleSetStatusCache :: StatusCache
  held :: "lock list"
  calls :: "(call \<times> lock list) list"
  spawned :: "observer list"
  nowCalls :: nat

text \<open>
  What the file takes from outside: the clock, the manager's configuration and instance
  lookup, the answers of the backend (a function of the calls issued so far, the current
  one last), and the helpers of \<^verbatim>\<open>azure_util.go\<close>, which is not part of the sources at
  hand. A Go result \<^verbatim>\<open>(v, err)\<close> is a pair whose second component is \<open>None\<close> for
  \<^verbatim>\<open>nil\<close>. \<open>GetAsgForInstance\<close> answers with the \<^verbatim>\<open>Id()\<close> of the group, \<open>None\<close> for
  the \<^verbatim>\<open>nil\<close> node group; it is taken as a function of the instance, and what the
  manager does to its own caches while it looks an instance up is outside this file.
\<close>

record env =
  timeNow :: "nat \<Rightarrow> time"
  ResourceGroup :: string
  clientList :: "call list \<Rightarrow> VirtualMachineScaleSet list \<times> error option"
  clientCreateOrUpdateAsync :: "call list \<Rightarrow> error option"
  clientDeleteInstancesAsync :: "call list \<Rightarrow> error option"
  GetAsgForInstance :: "azureRef \<Rightarrow> string option \<times> error option"
  getLastSegment :: "string \<Rightarrow> string \<times> error option"
  convertResourceGroupNameToLower :: "string \<Rightarrow> string \<times> error option"
  isAzureRequestsThrottled :: "error \<Rightarrow> bool"

text \<open>A call returns, panics (a \<^verbatim>\<open>nil\<close> dereference) or blocks for ever (locking a
  mutex the goroutine already holds: \<^verbatim>\<open>sync.Mutex\<close> is not reentrant).\<close>

datatype 'a outcome = Returns 'a | Panics | Blocks

definition vmssInstancesRefreshPeriod :: duration where
  "vmssInstancesRefreshPeriod = 5 * 60 * 1000000000"

subsection \<open>Clock, mutexes and the backend\<close>

definition now :: "env \<Rightarrow> world \<Rightarrow> time \<times> world" where
  "now e w = (timeNow e (nowCalls w), w\<lparr>nowCalls := Suc (nowCalls w)\<rparr>)"

definition Lock :: "lock \<Rightarrow> world \<Rightarrow> world option" where
  "Lock m w = (if m \<in> set (held w) then None else Some (w\<lparr>held := m # held w\<rparr>))"

definition Unlock :: "lock \<Rightarrow> world \<Rightarrow> world" where
  "Unlock m w = w\<lparr>held := remove1 m (held w)\<rparr>"

text \<open>\<^verbatim>\<open>m.Lock(); defer m.Unlock(); body\<close>: the deferred unlock also runs when the body
  panics.\<close>

definition lockDefer ::
  "lock \<Rightarrow> (world \<Rightarrow> 'a outcome \<times> world) \<Rightarrow> world \<Rightarrow> 'a outcome \<times> world" where
  "lockDefer m body w =
     (case Lock m w of
        None \<Rightarrow> (Blocks, w)
      | Some w1 \<Rightarrow>
          (case body w1 of
             (Blocks, w2) \<Rightarrow> (Blocks, w2)
           | (r, w2) \<Rightarrow> (r, Unlock m w2)))"

text \<open>\<^verbatim>\<open>m.Lock(); body; m.Unlock()\<close>: a panic in the body leaves the mutex locked.\<close>

definition lockThen ::
  "lock \<Rightarrow> (world \<Rightarrow> 'a outcome \<times> world) \<Rightarrow> world \<Rightarrow> 'a outcome \<times> world" where
  "lockThen m body w =
     (case Lock m w of
        None \<Rightarrow> (Blocks, w)
      | Some w1 \<Rightarrow>
          (case body w1 of
             (Returns x, w2) \<Rightarrow> (Returns x, Unlock m w2)
           | (r, w2) \<Rightarrow> (r, w2)))"

text \<open>Issuing a backend call logs it with the mutexes held at that moment.\<close>

definition issue :: "call \<Rightarrow> world \<Rightarrow> world" where
  "issue c w = w\<lparr>calls := calls w @ [(c, held w)]\<rparr>"

definition issued :: "world \<Rightarrow> call list" where
  "issued w = map fst (calls w)"

subsection \<open>The group descriptor: getVMSSInfo\<close>

definition getAllVMSSInfo ::
  "env \<Rightarrow> world \<Rightarrow> (VirtualMachineScaleSet list \<times> error option) \<times> world" where
  "getAllVMSSInfo e w =
     (let w1 = issue (List (ResourceGroup e)) w;
          (setInfo, err) = clientList e (issued w1)
      in if err \<noteq> None then (([], err), w1) else ((setInfo, None), w1))"

text \<open>The loop \<^verbatim>\<open>newStatus[*vmss.Name] = vmss\<close>: a group without a name is a \<^verbatim>\<open>nil\<close>
  dereference.\<close>

fun newStatusLoop ::
  "VirtualMachineScaleSet list \<Rightarrow> (string \<rightharpoonup> VirtualMachineScaleSet) \<Rightarrow>
   (string \<rightharpoonup> VirtualMachineScaleSet) outcome" where
  "newStatusLoop [] newStatus = Returns newStatus"
| "newStatusLoop (vmss # rest) newStatus =
     (case VmssName vmss of
        None \<Rightarrow> Panics
      | Some n \<Rightarrow> newStatusLoop rest (newStatus(n \<mapsto> vmss)))"

definition emptyVMSS :: VirtualMachineScaleSet where
  "emptyVMSS = \<lparr>VmssName = None, VmssSku = None, Location = None\<rparr>"

text \<open>The part of \<^verbatim>\<open>getVMSSInfo\<close> after the cache has missed. (The loop over the groups
  returns or panics; it takes no mutex.)\<close>

definition getVMSSInfo_refresh ::
  "env \<Rightarrow> world \<Rightarrow> (VirtualMachineScaleSet \<times> error option) outcome \<times> world" where
  "getVMSSInfo_refresh e w =
     (case getAllVMSSInfo e w of
        ((allVMSS, err), w1) \<Rightarrow>
          if err \<noteq> None then (Returns (emptyVMSS, err), w1)
          else
            (case newStatusLoop allVMSS Map.empty of
               Returns newStatus \<Rightarrow>
                 (let (t, w2) = now e w1;
                      w3 = w2\<lparr>scaleSetStatusCache := \<lparr>lastRefresh = t, scaleSets = newStatus\<rparr>\<rparr>
                  in case newStatus (Name (scaleSet w3)) of
                       None \<Rightarrow>
                         (Returns (emptyVMSS, Some (CouldNotFindVmss (Name (scaleSet w3)))), w3)
                     | Some status \<Rightarrow> (Returns (status, None), w3))
             | _ \<Rightarrow> (Panics, w1)))"

definition getVMSSInfo_body ::
  "env \<Rightarrow> world \<Rightarrow> (VirtualMachineScaleSet \<times> error option) outcome \<times> world" where
  "getVMSSInfo_body e w =
     (let (t, w1) = now e w
      in if t < lastRefresh (scaleSetStatusCache w1) + sizeRefreshPeriod (scaleSet w1)
         then
           (case scaleSets (scaleSetStatusCache w1) (Name (scaleSet w1)) of
              Some status \<Rightarrow> (Returns (status, None), w1)
            | None \<Rightarrow> getVMSSInfo_refresh e w1)
         else getVMSSInfo_refresh e w1)"

definition getVMSSInfo ::
  "env \<Rightarrow> world \<Rightarrow> (VirtualMachineScaleSet \<times> error option) outcome \<times> world" where
  "getVMSSInfo e = lockDefer StatusCacheMutex (getVMSSInfo_body e)"

subsection \<open>The size cache: getCurSize\<close>

definition invalidateInstanceCache :: "env \<Rightarrow> world \<Rightarrow> unit outcome \<times> world" where
  "invalidateInstanceCache e =
     lockThen InstanceMutex
       (\<lambda>w. let (t, w1) = now e w
            in (Returns (),
                w1\<lparr>scaleSet := (scaleSet w1)
                      \<lparr>lastInstanceRefresh := t + (- 1) * vmssInstancesRefreshPeriod\<rparr>\<rparr>))"

text \<open>\<^verbatim>\<open>curSize := *set.Sku.Capacity\<close> between \<^verbatim>\<open>vmssSizeMutex.Lock()\<close> and
  \<^verbatim>\<open>Unlock()\<close>.\<close>

definition readCapacity :: "VirtualMachineScaleSet \<Rightarrow> world \<Rightarrow> int64 outcome \<times> world" where
  "readCapacity vmss =
     lockThen VmssSizeMutex
       (\<lambda>w. case VmssSku vmss of
               None \<Rightarrow> (Panics, w)
             | Some sku \<Rightarrow>
                 (case Capacity sku of
                    None \<Rightarrow> (Panics, w)
                  | Some c \<Rightarrow> (Returns c, w)))"

text \<open>The end of \<^verbatim>\<open>getCurSize\<close>, once the capacity has been read.\<close>

definition storeCurSize :: "env \<Rightarrow> int64 \<Rightarrow> world \<Rightarrow> (int64 \<times> error option) outcome \<times> world" where
  "storeCurSize e c w =
     (case (if curSize (scaleSet w) \<noteq> c then invalidateInstanceCache e w else (Returns (), w)) of
        (Returns _, w1) \<Rightarrow>
          (let w2 = w1\<lparr>scaleSet := (scaleSet w1)\<lparr>curSize := c\<rparr>\<rparr>;
               (t, w3) = now e w2;
               w4 = w3\<lparr>scaleSet := (scaleSet w3)\<lparr>lastSizeRefresh := t\<rparr>\<rparr>
           in (Returns (curSize (scaleSet w4), None), w4))
      | (Panics, w1) \<Rightarrow> (Panics, w1)
      | (Blocks, w1) \<Rightarrow> (Blocks, w1))"

definition getCurSize_body :: "env \<Rightarrow> world \<Rightarrow> (int64 \<times> error option) outcome \<times> world" where
  "getCurSize_body e w =
     (let (t, w1) = now e w
      in if t < lastSizeRefresh (scaleSet w1) + sizeRefreshPeriod (scaleSet w1)
         then (Returns (curSize (scaleSet w1), None), w1)
         else
           (case getVMSSInfo e w1 of
              (Returns (vmss, Some err), w2) \<Rightarrow>
                if isAzureRequestsThrottled e err
                then
                  (let (t2, w3) = now e w2;
                       w4 = w3\<lparr>scaleSet := (scaleSet w3)\<lparr>lastSizeRefresh := t2\<rparr>\<rparr>
                   in (Returns (curSize (scaleSet w4), None), w4))
                else (Returns (- 1, Some err), w2)
            | (Returns (vmss, None), w2) \<Rightarrow>
                (case readCapacity vmss w2 of
                   (Returns c, w3) \<Rightarrow> storeCurSize e c w3
                 | (Panics, w3) \<Rightarrow> (Panics, w3)
                 | (Blocks, w3) \<Rightarrow> (Blocks, w3))
            | (Panics, w2) \<Rightarrow> (Panics, w2)
            | (Blocks, w2) \<Rightarrow> (Blocks, w2)))"

definition getCurSize :: "env \<Rightarrow> world \<Rightarrow> (int64 \<times> error option) outcome \<times> world" where
  "getCurSize e = lockDefer SizeMutex (getCurSize_body e)"

definition GetScaleSetSize :: "env \<Rightarrow> world \<Rightarrow> (int64 \<times> error option) outcome \<times> world" where
  "GetScaleSetSize e w = getCurSize e w"

text \<open>\<^verbatim>\<open>TargetSize\<close> converts the size to \<^verbatim>\<open>int\<close>, the same 64 bits.\<close>

definition TargetSize :: "env \<Rightarrow> world \<Rightarrow> (int64 \<times> error option) outcome \<times> world" where
  "TargetSize e w = GetScaleSetSize e w"

subsection \<open>Changing the capacity\<close>

text \<open>
  \<^verbatim>\<open>vmssInfo.Sku.Capacity = &size\<close> between \<^verbatim>\<open>vmssSizeMutex.Lock()\<close> and \<^verbatim>\<open>Unlock()\<close>.
  \<^verbatim>\<open>vmssInfo\<close> is a copy of the entry of \<^verbatim>\<open>scaleSetStatusCache.scaleSets\<close> under the
  set's name, and \<^verbatim>\<open>Sku\<close> is a pointer the copy shares with that entry: the assignment
  changes the cached descriptor too.
\<close>

definition writeCapacity ::
  "int64 \<Rightarrow> VirtualMachineScaleSet \<Rightarrow> world \<Rightarrow> VirtualMachineScaleSet outcome \<times> world" where
  "writeCapacity sz vmssInfo =
     lockThen VmssSizeMutex
       (\<lambda>w. case VmssSku vmssInfo of
               None \<Rightarrow> (Panics, w)
             | Some sku \<Rightarrow>
                 (let info = vmssInfo\<lparr>VmssSku := Some (sku\<lparr>Capacity := Some sz\<rparr>)\<rparr>;
                      cache = scaleSetStatusCache w
                  in (Returns info,
                      w\<lparr>scaleSetStatusCache :=
                           cache\<lparr>scaleSets := (scaleSets cache)(Name (scaleSet w) \<mapsto> info)\<rparr>\<rparr>)))"

definition updateVMSSCapacity :: "env \<Rightarrow> int64 \<Rightarrow> world \<Rightarrow> error option outcome \<times> world" where
  "updateVMSSCapacity e sz w =
     (case getVMSSInfo e w of
        (Returns (vmssInfo, Some err), w1) \<Rightarrow> (Returns (Some err), w1)
      | (Returns (vmssInfo, None), w1) \<Rightarrow>
          (case writeCapacity sz vmssInfo w1 of
             (Returns info, w2) \<Rightarrow>
               (let op = \<lparr>VmssName = VmssName info, VmssSku = VmssSku info,
                          Location = Location info\<rparr>;
                    w3 = issue (CreateOrUpdateAsync (ResourceGroup e) (Name (scaleSet w2)) op) w2
                in case clientCreateOrUpdateAsync e (issued w3) of
                     Some err \<Rightarrow> (Returns (Some err), w3)
                   | None \<Rightarrow>
                       (let w4 = w3\<lparr>scaleSet := (scaleSet w3)\<lparr>curSize := sz\<rparr>\<rparr>;
                            (t, w5) = now e w4;
                            w6 = w5\<lparr>scaleSet := (scaleSet w5)\<lparr>lastSizeRefresh := t\<rparr>\<rparr>
                        in (Returns None,
                            w6\<lparr>spawned := spawned w6 @ [WaitForUpdateVMSSCapacity]\<rparr>)))
           | (Panics, w2) \<Rightarrow> (Panics, w2)
           | (Blocks, w2) \<Rightarrow> (Blocks, w2))
      | (Panics, w1) \<Rightarrow> (Panics, w1)
      | (Blocks, w1) \<Rightarrow> (Blocks, w1))"

definition SetScaleSetSize :: "env \<Rightarrow> int64 \<Rightarrow> world \<Rightarrow> error option outcome \<times> world" where
  "SetScaleSetSize e sz = lockDefer SizeMutex (updateVMSSCapacity e sz)"

definition IncreaseSize :: "env \<Rightarrow> int64 \<Rightarrow> world \<Rightarrow> error option outcome \<times> world" where
  "IncreaseSize e delta w =
     (if delta \<le>s 0 then (Returns (Some SizeIncreaseMustBePositive), w)
      else
        (case GetScaleSetSize e w of
           (Returns (sz, Some err), w1) \<Rightarrow> (Returns (Some err), w1)
         | (Returns (sz, None), w1) \<Rightarrow>
             if sz = - 1
             then (Returns (Some (UnderInitialization (Name (scaleSet w1)))), w1)
             else if maxSize (scaleSet w1) <s sz + delta
             then (Returns (Some (SizeIncreaseTooLarge (sz + delta) (maxSize (scaleSet w1)))), w1)
             else SetScaleSetSize e (sz + delta) w1
         | (Panics, w1) \<Rightarrow> (Panics, w1)
         | (Blocks, w1) \<Rightarrow> (Blocks, w1)))"

subsection \<open>The observers of a mutation\<close>

definition invalidateStatusCacheWithLock :: "env \<Rightarrow> world \<Rightarrow> unit outcome \<times> world" where
  "invalidateStatusCacheWithLock e w =
     (case lockThen SizeMutex
             (\<lambda>w. let (t, w1) = now e w
                  in (Returns (),
                      w1\<lparr>scaleSet := (scaleSet w1)
                            \<lparr>lastSizeRefresh := t + (- 1) * sizeRefreshPeriod (scaleSet w1)\<rparr>\<rparr>)) w of
        (Returns _, w2) \<Rightarrow>
          lockThen StatusCacheMutex
            (\<lambda>w. let (t, w1) = now e w
                 in (Returns (),
                     w1\<lparr>scaleSetStatusCache := (scaleSetStatusCache w1)
                           \<lparr>lastRefresh := t + (- 1) * sizeRefreshPeriod (scaleSet w1)\<rparr>\<rparr>)) w2
      | (Panics, w2) \<Rightarrow> (Panics, w2)
      | (Blocks, w2) \<Rightarrow> (Blocks, w2))"

text \<open>
  The two waiters run in goroutines of their own. Their argument \<open>(isSuccess, err)\<close> is
  what \<^verbatim>\<open>isSuccessHTTPResponse\<close> (of \<^verbatim>\<open>azure_util.go\<close>) made of the answer of
  \<^verbatim>\<open>WaitForCreateOrUpdate\<close> or \<^verbatim>\<open>WaitForDeleteInstances\<close>. In
  \<^verbatim>\<open>waitForUpdateVMSSCapacity\<close> the deferred function reads the function's own \<^verbatim>\<open>err\<close>,
  which both \<^verbatim>\<open>:=\<close> assign (they are in the scope of its declaration).
\<close>

definition waitForUpdateVMSSCapacity ::
  "env \<Rightarrow> bool \<times> error option \<Rightarrow> world \<Rightarrow> unit outcome \<times> world" where
  "waitForUpdateVMSSCapacity e res w =
     (case res of
        (isSuccess, err) \<Rightarrow>
          (case (if isSuccess then invalidateInstanceCache e w else (Returns (), w)) of
             (Blocks, w1) \<Rightarrow> (Blocks, w1)
           | (r, w1) \<Rightarrow>
               if err \<noteq> None
               then
                 (case invalidateStatusCacheWithLock e w1 of
                    (Returns _, w2) \<Rightarrow> (r, w2)
                  | (r2, w2) \<Rightarrow> (r2, w2))
               else (r, w1)))"

definition waitForDeleteInstances ::
  "env \<Rightarrow> bool \<times> error option \<Rightarrow> string list \<Rightarrow> world \<Rightarrow> unit outcome \<times> world" where
  "waitForDeleteInstances e res requiredIds w =
     (case res of
        (isSuccess, err) \<Rightarrow> if isSuccess then (Returns (), w) else (Returns (), w))"

subsection \<open>Group membership\<close>

text \<open>\<^verbatim>\<open>strings.EqualFold\<close> of Go's library, on ASCII names: equality up to the case of
  the letters A to Z.\<close>

definition toLower :: "char \<Rightarrow> char" where
  "toLower c =
     (case map_of (zip ''ABCDEFGHIJKLMNOPQRSTUVWXYZ'' ''abcdefghijklmnopqrstuvwxyz'') c of
        Some l \<Rightarrow> l
      | None \<Rightarrow> c)"

definition EqualFold :: "string \<Rightarrow> string \<Rightarrow> bool" where
  "EqualFold s t = (map toLower s = map toLower t)"

definition Id_ScaleSet :: "ScaleSet \<Rightarrow> string" where
  "Id_ScaleSet s = Name s"

definition Belongs :: "env \<Rightarrow> Node \<Rightarrow> world \<Rightarrow> bool \<times> error option" where
  "Belongs e node w =
     (case GetAsgForInstance e (ProviderID node) of
        (targetAsg, Some err) \<Rightarrow> (False, Some err)
      | (None, None) \<Rightarrow> (False, Some (NoKnownScaleSet (NodeName node)))
      | (Some targetId, None) \<Rightarrow>
          if \<not> EqualFold targetId (Id_ScaleSet (scaleSet w)) then (False, None)
          else (True, None))"

subsection \<open>Deleting instances\<close>

fun findInstance :: "Instance list \<Rightarrow> string \<Rightarrow> Instance \<times> bool" where
  "findInstance [] providerID = (\<lparr>InstId = [], InstStatus = None\<rparr>, False)"
| "findInstance (instance # rest) providerID =
     (if InstId instance = providerID then (instance, True)
      else findInstance rest providerID)"

definition getInstanceByProviderID ::
  "string \<Rightarrow> world \<Rightarrow> (Instance \<times> bool) outcome \<times> world" where
  "getInstanceByProviderID providerID =
     lockDefer InstanceMutex
       (\<lambda>w. (Returns (findInstance (instanceCache (scaleSet w)) providerID), w))"

text \<open>
  The loop of \<^verbatim>\<open>DeleteInstances\<close> over the instances left, with the ids collected so far.
  \<^verbatim>\<open>asg.Id()\<close> and \<^verbatim>\<open>commonAsg.Id()\<close> on the \<^verbatim>\<open>nil\<close> node group panic.
\<close>

fun deleteLoop ::
  "env \<Rightarrow> string option \<Rightarrow> azureRef list \<Rightarrow> string list \<Rightarrow> world \<Rightarrow>
   (string list \<times> error option) outcome \<times> world" where
  "deleteLoop e commonAsg [] instanceIDs w = (Returns (instanceIDs, None), w)"
| "deleteLoop e commonAsg (instance # rest) instanceIDs w =
     (case GetAsgForInstance e instance of
        (asg, Some err) \<Rightarrow> (Returns (instanceIDs, Some err), w)
      | (None, None) \<Rightarrow> (Panics, w)
      | (Some asgId, None) \<Rightarrow>
          (case commonAsg of
             None \<Rightarrow> (Panics, w)
           | Some commonId \<Rightarrow>
               if \<not> EqualFold asgId commonId
               then (Returns (instanceIDs, Some (NotSameScaleSet instance commonId)), w)
               else
                 (case getInstanceByProviderID instance w of
                    (Returns (cpi, found), w1) \<Rightarrow>
                      if found \<and> InstStatus cpi = Some InstanceDeleting
                      then deleteLoop e commonAsg rest instanceIDs w1
                      else
                        (case getLastSegment e instance of
                           (instanceID, Some err) \<Rightarrow> (Returns (instanceIDs, Some err), w1)
                         | (instanceID, None) \<Rightarrow>
                             deleteLoop e commonAsg rest (instanceIDs @ [instanceID]) w1)
                  | (Panics, w1) \<Rightarrow> (Panics, w1)
                  | (Blocks, w1) \<Rightarrow> (Blocks, w1))))"

text \<open>\<^verbatim>\<open>DeleteInstancesAsync\<close> between \<^verbatim>\<open>instanceMutex.Lock()\<close> and \<^verbatim>\<open>Unlock()\<close>.\<close>

definition issueDelete ::
  "env \<Rightarrow> string option \<Rightarrow> string list \<Rightarrow> world \<Rightarrow> error option outcome \<times> world" where
  "issueDelete e commonAsg instanceIDs =
     lockThen InstanceMutex
       (\<lambda>w. case commonAsg of
               None \<Rightarrow> (Panics, w)
             | Some commonId \<Rightarrow>
                 (let w1 = issue (DeleteInstancesAsync (ResourceGroup e) commonId instanceIDs) w
                  in (Returns (clientDeleteInstancesAsync e (issued w1)), w1)))"

text \<open>\<^verbatim>\<open>scaleSet.curSize -= int64(len(instanceIDs))\<close> under the size mutex.\<close>

definition decrementCurSize :: "string list \<Rightarrow> world \<Rightarrow> unit outcome \<times> world" where
  "decrementCurSize instanceIDs =
     lockThen SizeMutex
       (\<lambda>w. (Returns (),
             w\<lparr>scaleSet := (scaleSet w)
                  \<lparr>curSize := curSize (scaleSet w) - of_nat (length instanceIDs)\<rparr>\<rparr>))"

definition DeleteInstances :: "env \<Rightarrow> azureRef list \<Rightarrow> world \<Rightarrow> error option outcome \<times> world" where
  "DeleteInstances e instances w =
     (case instances of
        [] \<Rightarrow> (Returns None, w)
      | first # _ \<Rightarrow>
          (case GetAsgForInstance e first of
             (commonAsg, Some err) \<Rightarrow> (Returns (Some err), w)
           | (commonAsg, None) \<Rightarrow>
               (case deleteLoop e commonAsg instances [] w of
                  (Returns (instanceIDs, Some err), w1) \<Rightarrow> (Returns (Some err), w1)
                | (Returns (instanceIDs, None), w1) \<Rightarrow>
                    if length instanceIDs = 0 then (Returns None, w1)
                    else
                      (case issueDelete e commonAsg instanceIDs w1 of
                         (Returns (Some err), w2) \<Rightarrow> (Returns (Some err), w2)
                       | (Returns None, w2) \<Rightarrow>
                           (case decrementCurSize instanceIDs w2 of
                              (Returns _, w3) \<Rightarrow>
                                (Returns None,
                                 w3\<lparr>spawned := spawned w3 @ [WaitForDeleteInstances instanceIDs]\<rparr>)
                            | (Panics, w3) \<Rightarrow> (Panics, w3)
                            | (Blocks, w3) \<Rightarrow> (Blocks, w3))
                       | (Panics, w2) \<Rightarrow> (Panics, w2)
                       | (Blocks, w2) \<Rightarrow> (Blocks, w2))
                | (Panics, w1) \<Rightarrow> (Panics, w1)
                | (Blocks, w1) \<Rightarrow> (Blocks, w1))))"

text \<open>The loop of \<^verbatim>\<open>DeleteNodes\<close> over the nodes left, with the references built so far.\<close>

fun nodeRefs :: "env \<Rightarrow> Node list \<Rightarrow> azureRef list \<Rightarrow> world \<Rightarrow> azureRef list \<times> error option" where
  "nodeRefs e [] refs w = (refs, None)"
| "nodeRefs e (node # rest) refs w =
     (case Belongs e node w of
        (belongs, Some err) \<Rightarrow> (refs, Some err)
      | (belongs, None) \<Rightarrow>
          if belongs \<noteq> True
          then (refs, Some (DifferentAsg (NodeName node) (Id_ScaleSet (scaleSet w))))
          else nodeRefs e rest (refs @ [ProviderID node]) w)"

definition DeleteNodes :: "env \<Rightarrow> Node list \<Rightarrow> world \<Rightarrow> error option outcome \<times> world" where
  "DeleteNodes e nodes w =
     (case GetScaleSetSize e w of
        (Returns (sz, Some err), w1) \<Rightarrow> (Returns (Some err), w1)
      | (Returns (sz, None), w1) \<Rightarrow>
          if sz \<le>s minSize (scaleSet w1) then (Returns (Some MinSizeReached), w1)
          else
            (case nodeRefs e nodes [] w1 of
               (refs, Some err) \<Rightarrow> (Returns (Some err), w1)
             | (refs, None) \<Rightarrow> DeleteInstances e refs w1)
      | (Panics, w1) \<Rightarrow> (Panics, w1)
      | (Blocks, w1) \<Rightarrow> (Blocks, w1))"

subsection \<open>The instance cache\<close>






subsection \<open>Properties stated below: auxiliary notions\<close>

text \<open>The test of the deletion loop on the instance cache: the instance is cached with
  a status whose state is \<^verbatim>\<open>InstanceDeleting\<close>.\<close>

definition cachedDeleting :: "world \<Rightarrow> azureRef \<Rightarrow> bool" where
  "cachedDeleting w instance =
     (case findInstance (instanceCache (scaleSet w)) instance of
        (cpi, found) \<Rightarrow> found \<and> InstStatus cpi = Some InstanceDeleting)"

text \<open>The clock never runs backwards (\<^verbatim>\<open>time.Now()\<close> carries a monotonic reading).\<close>

definition monotoneClock :: "env \<Rightarrow> bool" where
  "monotoneClock e = (\<forall>i j. i \<le> j \<longrightarrow> timeNow e i \<le> timeNow e j)"

subsection \<open>Sample environments and worlds\<close>

text \<open>
  One resource group \<open>rg\<close> with the scale set \<open>g1\<close>; the manager knows the instances
  \<open>a\<close> and \<open>b\<close> of \<open>g1\<close> and \<open>c\<close> of \<open>g2\<close>, and no other. The clock starts at 1000 and
  advances by one with every reading; an error is throttled when it carries the status
  429.
\<close>

definition vmssG1 :: "int64 \<Rightarrow> VirtualMachineScaleSet" where
  "vmssG1 c =
     \<lparr>VmssName = Some ''g1'',
      VmssSku = Some \<lparr>SkuName = Some ''Standard_D2'', Capacity = Some c\<rparr>,
      Location = Some ''westus''\<rparr>"

definition sampleLookup :: "azureRef \<Rightarrow> string option \<times> error option" where
  "sampleLookup r =
     (if r = ''azure://vm/a'' \<or> r = ''azure://vm/b'' then (Some ''g1'', None)
      else if r = ''azure://vm/c'' then (Some ''g2'', None)
      else (None, None))"

definition envOK :: env where
  "envOK =
     \<lparr>timeNow = (\<lambda>k. 1000 + int k),
      ResourceGroup = ''rg'',
      clientList = (\<lambda>_. ([vmssG1 3], None)),
      clientCreateOrUpdateAsync = (\<lambda>_. None),
      clientDeleteInstancesAsync = (\<lambda>_. None),
      GetAsgForInstance = sampleLookup,
      getLastSegment = (\<lambda>s. (drop 11 s, None)),
      convertResourceGroupNameToLower = (\<lambda>s. (s, None)),
      isAzureRequestsThrottled = (\<lambda>err. err = DetailedError 429)\<rparr>"

definition envThrottled :: env where
  "envThrottled = envOK\<lparr>clientList := (\<lambda>_. ([], Some (DetailedError 429)))\<rparr>"

text \<open>The set \<open>g1\<close> with bounds 1 and 3 and the cached size 2, refreshed at 995 with a
  period of 15 (fresh at 1000), and the same with a size last refreshed at 0 (stale). The
  group cache is empty and stale in both.\<close>

definition worldFresh :: world where
  "worldFresh =
     \<lparr>scaleSet =
        \<lparr>Name = ''g1'', minSize = 1, maxSize = 3, curSize = 2, lastSizeRefresh = 995,
         sizeRefreshPeriod = 15, instanceCache = [], lastInstanceRefresh = 0\<rparr>,
      scaleSetStatusCache = \<lparr>lastRefresh = 0, scaleSets = Map.empty\<rparr>,
      held = [], calls = [], spawned = [], nowCalls = 0\<rparr>"

definition worldStale :: world where
  "worldStale = worldFresh\<lparr>scaleSet := (scaleSet worldFresh)\<lparr>lastSizeRefresh := 0\<rparr>\<rparr>"

text \<open>The set \<open>g1\<close> with five instances, of which \<open>b\<close> is cached as deleting.\<close>

definition worldDeleting :: world where
  "worldDeleting =
     worldFresh\<lparr>scaleSet := (scaleSet worldFresh)
       \<lparr>maxSize := 10, curSize := 5,
        instanceCache := [\<lparr>InstId = ''azure://vm/b'', InstStatus = Some InstanceDeleting\<rparr>]\<rparr>\<rparr>"

section \<open>Properties\<close>

text \<open>
  The properties are about a method called by a goroutine that holds none of the mutexes
  (\<open>held w = []\<close>), as the callers of the driver do; a method entered with one of its own
  mutexes held would block.
\<close>

subsection \<open>Unfolding the model\<close>

lemmas sample_defs = envOK_def envThrottled_def worldFresh_def worldStale_def worldDeleting_def
  vmssG1_def sampleLookup_def
lemmas run_defs = Let_def lockDefer_def lockThen_def Lock_def Unlock_def now_def issue_def issued_def
  getAllVMSSInfo_def getVMSSInfo_refresh_def getVMSSInfo_body_def getVMSSInfo_def
  invalidateInstanceCache_def readCapacity_def storeCurSize_def getCurSize_body_def getCurSize_def
  GetScaleSetSize_def TargetSize_def writeCapacity_def updateVMSSCapacity_def SetScaleSetSize_def
  IncreaseSize_def invalidateStatusCacheWithLock_def waitForUpdateVMSSCapacity_def
  waitForDeleteInstances_def EqualFold_def toLower_def Id_ScaleSet_def Belongs_def
  getInstanceByProviderID_def issueDelete_def decrementCurSize_def DeleteInstances_def
  DeleteNodes_def vmssInstancesRefreshPeriod_def word_sle_eq word_sless_alt


subsection \<open>Mutexes and the group descriptor\<close>

lemma Lock_free: "m \<notin> set (held w) \<Longrightarrow> Lock m w = Some (w\<lparr>held := m # held w\<rparr>)"
  by (simp add: Lock_def)

lemma Lock_held: "m \<in> set (held w) \<Longrightarrow> Lock m w = None"
  by (simp add: Lock_def)

lemma getVMSSInfo_refresh_frame:
  assumes "getVMSSInfo_refresh e w = (r, w')"
  shows "r \<noteq> Blocks \<and> scaleSet w' = scaleSet w \<and> held w' = held w \<and> spawned w' = spawned w
         \<and> calls w' = calls w @ [(List (ResourceGroup e), held w)]"
  using assms
  by (auto simp: getVMSSInfo_refresh_def getAllVMSSInfo_def issue_def issued_def now_def Let_def
           split: prod.splits outcome.splits option.splits if_splits)

lemma getVMSSInfo_body_frame:
  assumes "getVMSSInfo_body e w = (r, w')"
  shows "r \<noteq> Blocks \<and> scaleSet w' = scaleSet w \<and> held w' = held w \<and> spawned w' = spawned w
         \<and> (calls w' = calls w \<or> calls w' = calls w @ [(List (ResourceGroup e), held w)])"
  using assms
  by (auto simp: getVMSSInfo_body_def now_def Let_def
           split: prod.splits outcome.splits option.splits if_splits
           dest!: getVMSSInfo_refresh_frame)

lemma getVMSSInfo_frame:
  assumes "getVMSSInfo e w = (r, w')" and "StatusCacheMutex \<notin> set (held w)"
  shows "r \<noteq> Blocks \<and> scaleSet w' = scaleSet w \<and> held w' = held w \<and> spawned w' = spawned w
         \<and> (calls w' = calls w \<or>
             calls w' = calls w @ [(List (ResourceGroup e), StatusCacheMutex # held w)])"
  using assms
  by (auto simp: getVMSSInfo_def lockDefer_def Lock_def Unlock_def
           split: prod.splits outcome.splits option.splits if_splits
           dest!: getVMSSInfo_body_frame)

lemma getVMSSInfo_stale_calls:
  assumes "StatusCacheMutex \<notin> set (held w)"
    and "\<not> timeNow e (nowCalls w)
           < lastRefresh (scaleSetStatusCache w) + sizeRefreshPeriod (scaleSet w)"
  shows "calls (snd (getVMSSInfo e w))
           = calls w @ [(List (ResourceGroup e), StatusCacheMutex # held w)]"
proof -
  obtain r w' where r: "getVMSSInfo_refresh e (w\<lparr>held := StatusCacheMutex # held w,
                           nowCalls := Suc (nowCalls w)\<rparr>) = (r, w')"
    by (cases "getVMSSInfo_refresh e (w\<lparr>held := StatusCacheMutex # held w,
                           nowCalls := Suc (nowCalls w)\<rparr>)")
  from getVMSSInfo_refresh_frame [OF r] r assms show ?thesis
    by (auto simp: getVMSSInfo_def getVMSSInfo_body_def lockDefer_def Lock_def Unlock_def now_def
             split: outcome.splits)
qed


subsection \<open>The size refresh\<close>

lemma getCurSize_fresh:
  assumes "held w = []"
    and "timeNow e (nowCalls w) < lastSizeRefresh (scaleSet w) + sizeRefreshPeriod (scaleSet w)"
  shows "getCurSize e w = (Returns (curSize (scaleSet w), None), w\<lparr>nowCalls := Suc (nowCalls w)\<rparr>)"
  using assms
  by (simp add: getCurSize_def getCurSize_body_def lockDefer_def Lock_def Unlock_def now_def)

lemma getCurSize_throttled:
  assumes "held w = []"
    and "\<not> timeNow e (nowCalls w) < lastSizeRefresh (scaleSet w) + sizeRefreshPeriod (scaleSet w)"
    and "getVMSSInfo e (w\<lparr>held := [SizeMutex], nowCalls := Suc (nowCalls w)\<rparr>)
           = (Returns (vmss, Some err), w2)"
    and "isAzureRequestsThrottled e err"
  shows "getCurSize e w =
           (Returns (curSize (scaleSet w), None),
            w2\<lparr>scaleSet := (scaleSet w)\<lparr>lastSizeRefresh := timeNow e (nowCalls w2)\<rparr>,
               nowCalls := Suc (nowCalls w2), held := []\<rparr>)"
proof -
  from getVMSSInfo_frame [OF assms(3)]
  have "scaleSet w2 = scaleSet w" and "held w2 = [SizeMutex]" by simp_all
  with assms show ?thesis
    by (simp add: getCurSize_def getCurSize_body_def lockDefer_def Lock_def Unlock_def now_def)
qed

lemma getCurSize_stored:
  assumes "held w = []"
    and "\<not> timeNow e (nowCalls w) < lastSizeRefresh (scaleSet w) + sizeRefreshPeriod (scaleSet w)"
    and "getVMSSInfo e (w\<lparr>held := [SizeMutex], nowCalls := Suc (nowCalls w)\<rparr>)
           = (Returns (vmss, None), w2)"
    and "VmssSku vmss = Some sku" and "Capacity sku = Some c"
  shows "getCurSize e w =
           (Returns (c, None),
            if curSize (scaleSet w) \<noteq> c
            then w2\<lparr>scaleSet := (scaleSet w)
                      \<lparr>lastInstanceRefresh := timeNow e (nowCalls w2) - vmssInstancesRefreshPeriod,
                       curSize := c, lastSizeRefresh := timeNow e (Suc (nowCalls w2))\<rparr>,
                    nowCalls := Suc (Suc (nowCalls w2)), held := []\<rparr>
            else w2\<lparr>scaleSet := (scaleSet w)
                      \<lparr>curSize := c, lastSizeRefresh := timeNow e (nowCalls w2)\<rparr>,
                    nowCalls := Suc (nowCalls w2), held := []\<rparr>)"
proof -
  from getVMSSInfo_frame [OF assms(3)]
  have "scaleSet w2 = scaleSet w" and "held w2 = [SizeMutex]" by simp_all
  with assms show ?thesis
    by (simp add: getCurSize_def getCurSize_body_def lockDefer_def lockThen_def Lock_def Unlock_def
          now_def readCapacity_def storeCurSize_def invalidateInstanceCache_def)
qed

lemma getCurSize_frame:
  assumes "getCurSize e w = (r, w')" and "held w = []"
  shows "r \<noteq> Blocks \<and> spawned w' = spawned w
         \<and> Name (scaleSet w') = Name (scaleSet w)
         \<and> minSize (scaleSet w') = minSize (scaleSet w)
         \<and> maxSize (scaleSet w') = maxSize (scaleSet w)
         \<and> instanceCache (scaleSet w') = instanceCache (scaleSet w)
         \<and> (calls w' = calls w \<or>
             calls w' = calls w @ [(List (ResourceGroup e), [StatusCacheMutex, SizeMutex])])
         \<and> (\<forall>x. r = Returns x \<longrightarrow> held w' = [])
         \<and> (\<forall>sz. r = Returns (sz, None) \<longrightarrow> curSize (scaleSet w') = sz)"
proof -
  let ?w1 = "w\<lparr>held := [SizeMutex], nowCalls := Suc (nowCalls w)\<rparr>"
  obtain r2 w2 where g: "getVMSSInfo e ?w1 = (r2, w2)"
    by (cases "getVMSSInfo e ?w1")
  have f: "r2 \<noteq> Blocks \<and> scaleSet w2 = scaleSet w \<and> held w2 = [SizeMutex]
           \<and> spawned w2 = spawned w
           \<and> (calls w2 = calls w \<or>
               calls w2 = calls w @ [(List (ResourceGroup e), [StatusCacheMutex, SizeMutex])])"
    using getVMSSInfo_frame [OF g] by simp
  from assms g f show ?thesis
    by (auto simp: getCurSize_def getCurSize_body_def lockDefer_def lockThen_def Lock_def
          Unlock_def now_def readCapacity_def storeCurSize_def invalidateInstanceCache_def Let_def
          split: outcome.splits option.splits if_splits prod.splits)
qed

text \<open>
  Claim C3. The size refresh: while the size is fresh (\<open>now - lastSizeRefresh < sizeRefreshPeriod\<close>)
  \<^verbatim>\<open>getCurSize\<close> returns \<open>curSize\<close> and changes nothing but the count of clock readings,
  so no backend call is made. When the size is stale and \<^verbatim>\<open>getVMSSInfo\<close> fails with a
  throttled error, it returns the cached size, sets \<open>lastSizeRefresh\<close> to the next clock
  reading and adds no call of its own; a second call whose clock reading falls within the
  period after that returns the same size without any backend call. When the size is stale
  and \<^verbatim>\<open>getVMSSInfo\<close> returns a descriptor with capacity \<open>c\<close>, it returns \<open>c\<close> and stores
  it with the time of storing; if \<open>c\<close> differs from the cached size the instance cache has
  been invalidated before (its refresh time is the clock reading minus the instance
  refresh period), and otherwise the instance cache is left alone.
\<close>

theorem getCurSize_refresh_steps:
  assumes "held w = []"
  shows
    "(timeNow e (nowCalls w) < lastSizeRefresh (scaleSet w) + sizeRefreshPeriod (scaleSet w) \<longrightarrow>
        getCurSize e w = (Returns (curSize (scaleSet w), None), w\<lparr>nowCalls := Suc (nowCalls w)\<rparr>))
     \<and>
     (\<not> timeNow e (nowCalls w) < lastSizeRefresh (scaleSet w) + sizeRefreshPeriod (scaleSet w) \<and>
      getVMSSInfo e (w\<lparr>held := [SizeMutex], nowCalls := Suc (nowCalls w)\<rparr>)
        = (Returns (vmssT, Some err), wT) \<and>
      isAzureRequestsThrottled e err \<longrightarrow>
        fst (getCurSize e w) = Returns (curSize (scaleSet w), None) \<and>
        curSize (scaleSet (snd (getCurSize e w))) = curSize (scaleSet w) \<and>
        lastSizeRefresh (scaleSet (snd (getCurSize e w))) = timeNow e (nowCalls wT) \<and>
        calls (snd (getCurSize e w)) = calls wT \<and>
        (timeNow e (nowCalls (snd (getCurSize e w)))
           < timeNow e (nowCalls wT) + sizeRefreshPeriod (scaleSet w) \<longrightarrow>
         fst (getCurSize e (snd (getCurSize e w))) = Returns (curSize (scaleSet w), None) \<and>
         calls (snd (getCurSize e (snd (getCurSize e w)))) = calls (snd (getCurSize e w))))
     \<and>
     (\<not> timeNow e (nowCalls w) < lastSizeRefresh (scaleSet w) + sizeRefreshPeriod (scaleSet w) \<and>
      getVMSSInfo e (w\<lparr>held := [SizeMutex], nowCalls := Suc (nowCalls w)\<rparr>)
        = (Returns (vmssS, None), wS) \<and>
      VmssSku vmssS = Some sku \<and> Capacity sku = Some c \<longrightarrow>
        fst (getCurSize e w) = Returns (c, None) \<and>
        curSize (scaleSet (snd (getCurSize e w))) = c \<and>
        (c \<noteq> curSize (scaleSet w) \<longrightarrow>
           lastInstanceRefresh (scaleSet (snd (getCurSize e w)))
             = timeNow e (nowCalls wS) - vmssInstancesRefreshPeriod \<and>
           lastSizeRefresh (scaleSet (snd (getCurSize e w))) = timeNow e (Suc (nowCalls wS))) \<and>
        (c = curSize (scaleSet w) \<longrightarrow>
           lastInstanceRefresh (scaleSet (snd (getCurSize e w))) = lastInstanceRefresh (scaleSet w) \<and>
           lastSizeRefresh (scaleSet (snd (getCurSize e w))) = timeNow e (nowCalls wS)))"
proof (intro conjI impI)
  assume "timeNow e (nowCalls w) < lastSizeRefresh (scaleSet w) + sizeRefreshPeriod (scaleSet w)"
  with assms show "getCurSize e w
      = (Returns (curSize (scaleSet w), None), w\<lparr>nowCalls := Suc (nowCalls w)\<rparr>)"
    by (rule getCurSize_fresh)
next
  assume h: "\<not> timeNow e (nowCalls w) < lastSizeRefresh (scaleSet w) + sizeRefreshPeriod (scaleSet w) \<and>
      getVMSSInfo e (w\<lparr>held := [SizeMutex], nowCalls := Suc (nowCalls w)\<rparr>)
        = (Returns (vmssT, Some err), wT) \<and> isAzureRequestsThrottled e err"
  let ?w' = "wT\<lparr>scaleSet := (scaleSet w)\<lparr>lastSizeRefresh := timeNow e (nowCalls wT)\<rparr>,
                nowCalls := Suc (nowCalls wT), held := []\<rparr>"
  from h assms have r: "getCurSize e w = (Returns (curSize (scaleSet w), None), ?w')"
    using getCurSize_throttled [OF assms, of e vmssT err wT] by simp
  show "fst (getCurSize e w) = Returns (curSize (scaleSet w), None)"
    and "curSize (scaleSet (snd (getCurSize e w))) = curSize (scaleSet w)"
    and "lastSizeRefresh (scaleSet (snd (getCurSize e w))) = timeNow e (nowCalls wT)"
    and "calls (snd (getCurSize e w)) = calls wT"
    by (simp_all add: r)
  assume "timeNow e (nowCalls (snd (getCurSize e w)))
           < timeNow e (nowCalls wT) + sizeRefreshPeriod (scaleSet w)"
  then have "timeNow e (nowCalls ?w')
           < lastSizeRefresh (scaleSet ?w') + sizeRefreshPeriod (scaleSet ?w')"
    by (simp add: r)
  then have r2: "getCurSize e ?w'
      = (Returns (curSize (scaleSet ?w'), None), ?w'\<lparr>nowCalls := Suc (nowCalls ?w')\<rparr>)"
    by (intro getCurSize_fresh) simp_all
  show "fst (getCurSize e (snd (getCurSize e w))) = Returns (curSize (scaleSet w), None)"
    and "calls (snd (getCurSize e (snd (getCurSize e w)))) = calls (snd (getCurSize e w))"
    by (simp_all add: r r2)
next
  assume h: "\<not> timeNow e (nowCalls w) < lastSizeRefresh (scaleSet w) + sizeRefreshPeriod (scaleSet w) \<and>
      getVMSSInfo e (w\<lparr>held := [SizeMutex], nowCalls := Suc (nowCalls w)\<rparr>)
        = (Returns (vmssS, None), wS) \<and>
      VmssSku vmssS = Some sku \<and> Capacity sku = Some c"
  note r = getCurSize_stored [OF assms, of e vmssS wS sku c]
  from h r show "fst (getCurSize e w) = Returns (c, None)"
    and "curSize (scaleSet (snd (getCurSize e w))) = c"
    by simp_all
  {
    assume "c \<noteq> curSize (scaleSet w)"
    with h r show "lastInstanceRefresh (scaleSet (snd (getCurSize e w)))
             = timeNow e (nowCalls wS) - vmssInstancesRefreshPeriod"
      and "lastSizeRefresh (scaleSet (snd (getCurSize e w))) = timeNow e (Suc (nowCalls wS))"
      by simp_all
  }
  {
    assume "c = curSize (scaleSet w)"
    with h r show "lastInstanceRefresh (scaleSet (snd (getCurSize e w)))
             = lastInstanceRefresh (scaleSet w)"
      and "lastSizeRefresh (scaleSet (snd (getCurSize e w))) = timeNow e (nowCalls wS)"
      by simp_all
  }
qed


theorem getCurSize_refresh_steps_witness:
  "getCurSize envOK worldFresh = (Returns (2, None), worldFresh\<lparr>nowCalls := 1\<rparr>)
   \<and> fst (getCurSize envThrottled worldStale) = Returns (2, None)
   \<and> lastSizeRefresh (scaleSet (snd (getCurSize envThrottled worldStale))) = 1002
   \<and> issued (snd (getCurSize envThrottled worldStale)) = [List ''rg'']
   \<and> fst (getCurSize envThrottled (snd (getCurSize envThrottled worldStale))) = Returns (2, None)
   \<and> issued (snd (getCurSize envThrottled (snd (getCurSize envThrottled worldStale)))) = [List ''rg'']
   \<and> fst (getCurSize envOK worldStale) = Returns (3, None)
   \<and> curSize (scaleSet (snd (getCurSize envOK worldStale))) = 3
   \<and> lastInstanceRefresh (scaleSet (snd (getCurSize envOK worldStale))) = 1003 - vmssInstancesRefreshPeriod
   \<and> lastSizeRefresh (scaleSet (snd (getCurSize envOK worldStale))) = 1004"
proof -
  have f: "held worldFresh = []" and s: "held worldStale = []"
    by (simp_all add: sample_defs)
  note a = getCurSize_refresh_steps [OF f, of envOK, THEN conjunct1]
  note b = getCurSize_refresh_steps [OF s, of envThrottled
      "fst (case fst (getVMSSInfo envThrottled (worldStale\<lparr>held := [SizeMutex], nowCalls := Suc (nowCalls worldStale)\<rparr>)) of Returns x \<Rightarrow> x)"
      "DetailedError 429"
      "snd (getVMSSInfo envThrottled (worldStale\<lparr>held := [SizeMutex], nowCalls := Suc (nowCalls worldStale)\<rparr>))",
      THEN conjunct2, THEN conjunct1]
  note c = getCurSize_refresh_steps [OF s, of envOK _ _ _
      "vmssG1 3"
      "snd (getVMSSInfo envOK (worldStale\<lparr>held := [SizeMutex], nowCalls := Suc (nowCalls worldStale)\<rparr>))"
      "\<lparr>SkuName = Some ''Standard_D2'', Capacity = Some 3\<rparr>" 3,
      THEN conjunct2, THEN conjunct2]
  have "getCurSize envOK worldFresh = (Returns (2, None), worldFresh\<lparr>nowCalls := 1\<rparr>)"
    using a by (simp add: sample_defs)
  moreover have "fst (getCurSize envThrottled worldStale) = Returns (2, None)
   \<and> lastSizeRefresh (scaleSet (snd (getCurSize envThrottled worldStale))) = 1002
   \<and> issued (snd (getCurSize envThrottled worldStale)) = [List ''rg'']
   \<and> fst (getCurSize envThrottled (snd (getCurSize envThrottled worldStale))) = Returns (2, None)
   \<and> issued (snd (getCurSize envThrottled (snd (getCurSize envThrottled worldStale)))) = [List ''rg'']"
    using b by (simp add: sample_defs run_defs emptyVMSS_def)
  moreover have "fst (getCurSize envOK worldStale) = Returns (3, None)
   \<and> curSize (scaleSet (snd (getCurSize envOK worldStale))) = 3
   \<and> lastInstanceRefresh (scaleSet (snd (getCurSize envOK worldStale))) = 1003 - vmssInstancesRefreshPeriod
   \<and> lastSizeRefresh (scaleSet (snd (getCurSize envOK worldStale))) = 1004"
    using c by (simp add: sample_defs run_defs)
  ultimately show ?thesis by blast
qed

subsection \<open>Mutexes held during the backend call\<close>

lemma getCurSize_stale_calls:
  assumes "held w = []"
    and "\<not> timeNow e (nowCalls w) < lastSizeRefresh (scaleSet w) + sizeRefreshPeriod (scaleSet w)"
    and "\<not> timeNow e (Suc (nowCalls w))
           < lastRefresh (scaleSetStatusCache w) + sizeRefreshPeriod (scaleSet w)"
  shows "calls (snd (getCurSize e w))
           = calls w @ [(List (ResourceGroup e), [StatusCacheMutex, SizeMutex])]"
proof -
  let ?w1 = "w\<lparr>held := [SizeMutex], nowCalls := Suc (nowCalls w)\<rparr>"
  obtain r2 w2 where g: "getVMSSInfo e ?w1 = (r2, w2)"
    by (cases "getVMSSInfo e ?w1")
  have c: "calls w2 = calls w @ [(List (ResourceGroup e), [StatusCacheMutex, SizeMutex])]"
    using getVMSSInfo_stale_calls [of ?w1 e] assms g by simp
  have f: "r2 \<noteq> Blocks \<and> scaleSet w2 = scaleSet w \<and> held w2 = [SizeMutex]"
    using getVMSSInfo_frame [OF g] by simp
  from assms g f c show ?thesis
    by (auto simp: getCurSize_def getCurSize_body_def lockDefer_def lockThen_def Lock_def
          Unlock_def now_def readCapacity_def storeCurSize_def invalidateInstanceCache_def Let_def
          split: outcome.splits option.splits if_splits prod.splits)
qed

text \<open>
  Claim C9, as the code has it. \<^verbatim>\<open>getVMSSInfo\<close> takes the mutex of the group cache on
  entry and releases it by a deferred unlock, and \<^verbatim>\<open>getCurSize\<close> does the same with the
  size mutex around it. So, called by a goroutine that holds no mutex, the size refresh
  issues at most one backend call, the \<^verbatim>\<open>List\<close> of the resource group, and issues it
  while it holds both the size mutex and the mutex of the group cache; it does issue
  that call whenever the size and the group cache are both stale; and when it returns it
  holds no mutex any more.
\<close>

theorem getCurSize_holds_locks_during_List:
  assumes "held w = []"
  shows "(calls (snd (getCurSize e w)) = calls w \<or>
          calls (snd (getCurSize e w))
            = calls w @ [(List (ResourceGroup e), [StatusCacheMutex, SizeMutex])])
         \<and> (\<not> timeNow e (nowCalls w) < lastSizeRefresh (scaleSet w) + sizeRefreshPeriod (scaleSet w) \<and>
             \<not> timeNow e (Suc (nowCalls w))
                 < lastRefresh (scaleSetStatusCache w) + sizeRefreshPeriod (scaleSet w) \<longrightarrow>
             calls (snd (getCurSize e w))
               = calls w @ [(List (ResourceGroup e), [StatusCacheMutex, SizeMutex])])
         \<and> (\<forall>x. fst (getCurSize e w) = Returns x \<longrightarrow> held (snd (getCurSize e w)) = [])"
proof -
  obtain r w' where g: "getCurSize e w = (r, w')"
    by (cases "getCurSize e w")
  from getCurSize_frame [OF g assms] g getCurSize_stale_calls [OF assms, of e]
  show ?thesis by auto
qed

theorem getCurSize_holds_locks_during_List_witness:
  "calls (snd (getCurSize envOK worldStale)) = [(List ''rg'', [StatusCacheMutex, SizeMutex])]
   \<and> fst (getCurSize envOK worldStale) = Returns (3, None)
   \<and> held (snd (getCurSize envOK worldStale)) = []"
proof -
  have s: "held worldStale = []"
    by (simp add: sample_defs)
  have r: "fst (getCurSize envOK worldStale) = Returns (3, None)"
    by (simp add: sample_defs run_defs)
  from getCurSize_holds_locks_during_List [OF s, of envOK] r show ?thesis
    by (simp add: sample_defs)
qed

text \<open>
  Claim C9, as the specification states it, fails: on the stale sample world the
  \<^verbatim>\<open>List\<close> call of \<^verbatim>\<open>getVMSSInfo\<close> is issued with the mutex of the group cache held, and the
  one of \<^verbatim>\<open>getCurSize\<close> with two of the three mutexes held at once.
\<close>

theorem group_cache_lock_held_during_List:
  "calls (snd (getVMSSInfo envOK worldStale)) = [(List ''rg'', [StatusCacheMutex])]
   \<and> calls (snd (getCurSize envOK worldStale)) = [(List ''rg'', [StatusCacheMutex, SizeMutex])]"
  by (simp add: sample_defs run_defs)

subsection \<open>The observers of a mutation\<close>

lemma monotoneClockD: "monotoneClock e \<Longrightarrow> i \<le> j \<Longrightarrow> timeNow e i \<le> timeNow e j"
  by (simp add: monotoneClock_def)

lemma invalidateInstanceCache_free:
  assumes "InstanceMutex \<notin> set (held w)"
  shows "invalidateInstanceCache e w =
           (Returns (),
            w\<lparr>scaleSet := (scaleSet w)
                 \<lparr>lastInstanceRefresh := timeNow e (nowCalls w) - vmssInstancesRefreshPeriod\<rparr>,
              nowCalls := Suc (nowCalls w)\<rparr>)"
  using assms
  by (simp add: invalidateInstanceCache_def lockThen_def Lock_def Unlock_def now_def)

lemma invalidateStatusCacheWithLock_free:
  assumes "held w = []"
  shows "invalidateStatusCacheWithLock e w =
           (Returns (),
            w\<lparr>scaleSet := (scaleSet w)
                 \<lparr>lastSizeRefresh := timeNow e (nowCalls w) - sizeRefreshPeriod (scaleSet w)\<rparr>,
              scaleSetStatusCache := (scaleSetStatusCache w)
                 \<lparr>lastRefresh := timeNow e (Suc (nowCalls w)) - sizeRefreshPeriod (scaleSet w)\<rparr>,
              nowCalls := Suc (Suc (nowCalls w))\<rparr>)"
  using assms
  by (simp add: invalidateStatusCacheWithLock_def lockThen_def Lock_def Unlock_def now_def)

lemma waitForUpdateVMSSCapacity_failed:
  assumes "held w = []"
  shows "waitForUpdateVMSSCapacity e (isSuccess, Some err) w =
           (Returns (), snd (invalidateStatusCacheWithLock e
              (if isSuccess then snd (invalidateInstanceCache e w) else w)))"
  using assms
  by (simp add: waitForUpdateVMSSCapacity_def invalidateInstanceCache_free
        invalidateStatusCacheWithLock_free)

text \<open>
  Claim C7, as the code has it. The waiter of a capacity update whose wait ended with an
  error (\<open>err\<close> is not \<^verbatim>\<open>nil\<close>) returns without a backend call of its own and leaves the
  size cache and the group cache invalidated: with a clock that does not run backwards,
  the next \<^verbatim>\<open>TargetSize\<close> issues a fresh \<^verbatim>\<open>List\<close>. The waiter of an instance deletion
  only logs: whatever its wait returned, it leaves the world as it was.
\<close>

theorem failed_capacity_update_forces_refetch:
  assumes "held w = []" and "monotoneClock e"
  shows "fst (waitForUpdateVMSSCapacity e (isSuccess, Some err) w) = Returns ()
         \<and> issued (snd (waitForUpdateVMSSCapacity e (isSuccess, Some err) w)) = issued w
         \<and> issued (snd (TargetSize e (snd (waitForUpdateVMSSCapacity e (isSuccess, Some err) w))))
             = issued w @ [List (ResourceGroup e)]
         \<and> waitForDeleteInstances e res requiredIds w = (Returns (), w)"
proof -
  let ?w0 = "if isSuccess then snd (invalidateInstanceCache e w) else w"
  let ?w1 = "snd (invalidateStatusCacheWithLock e ?w0)"
  have h0: "held ?w0 = []" and c0: "calls ?w0 = calls w"
    using assms(1) by (simp_all add: invalidateInstanceCache_free)
  have w1: "?w1 = ?w0\<lparr>scaleSet := (scaleSet ?w0)
                 \<lparr>lastSizeRefresh := timeNow e (nowCalls ?w0) - sizeRefreshPeriod (scaleSet ?w0)\<rparr>,
              scaleSetStatusCache := (scaleSetStatusCache ?w0)
                 \<lparr>lastRefresh := timeNow e (Suc (nowCalls ?w0)) - sizeRefreshPeriod (scaleSet ?w0)\<rparr>,
              nowCalls := Suc (Suc (nowCalls ?w0))\<rparr>"
    using invalidateStatusCacheWithLock_free [OF h0, of e] by simp
  have r: "waitForUpdateVMSSCapacity e (isSuccess, Some err) w = (Returns (), ?w1)"
    using assms(1) by (rule waitForUpdateVMSSCapacity_failed)
  have h1: "held ?w1 = []" and c1: "calls ?w1 = calls w"
    by (simp_all only: w1) (simp_all add: h0 c0)
  have m1: "timeNow e (nowCalls ?w0) \<le> timeNow e (Suc (Suc (nowCalls ?w0)))"
    and m2: "timeNow e (Suc (nowCalls ?w0)) \<le> timeNow e (Suc (Suc (Suc (nowCalls ?w0))))"
    using assms(2) by (simp_all add: monotoneClockD)
  have s1: "\<not> timeNow e (nowCalls ?w1)
             < lastSizeRefresh (scaleSet ?w1) + sizeRefreshPeriod (scaleSet ?w1)"
    by (subst (1 2 3) w1) (use m1 in simp)
  have s2: "\<not> timeNow e (Suc (nowCalls ?w1))
             < lastRefresh (scaleSetStatusCache ?w1) + sizeRefreshPeriod (scaleSet ?w1)"
    by (subst (1 2 3) w1) (use m2 in simp)
  have "calls (snd (getCurSize e ?w1))
          = calls ?w1 @ [(List (ResourceGroup e), [StatusCacheMutex, SizeMutex])]"
    using h1 s1 s2 by (rule getCurSize_stale_calls)
  then have "issued (snd (TargetSize e ?w1)) = issued w @ [List (ResourceGroup e)]"
    by (simp add: TargetSize_def GetScaleSetSize_def issued_def c1)
  moreover have "waitForDeleteInstances e res requiredIds w = (Returns (), w)"
    by (simp add: waitForDeleteInstances_def split: prod.splits)
  ultimately show ?thesis
    by (simp add: r issued_def c1)
qed

theorem failed_capacity_update_forces_refetch_witness:
  "issued (snd (TargetSize envOK
      (snd (waitForUpdateVMSSCapacity envOK (False, Some (OpaqueError ''failed'')) worldFresh))))
     = [List ''rg'']"
proof -
  have h: "held worldFresh = []"
    by (simp add: sample_defs)
  have m: "monotoneClock envOK"
    by (simp add: monotoneClock_def envOK_def)
  from failed_capacity_update_forces_refetch [OF h m, of False "OpaqueError ''failed''"]
  show ?thesis
    by (simp add: sample_defs issued_def)
qed

text \<open>
  Claim C7, as the specification states it, fails for the waiter of an instance deletion:
  after its wait has failed on the fresh sample world, the next \<^verbatim>\<open>TargetSize\<close> still
  answers 2 from the size cache and issues no backend call.
\<close>

theorem failed_delete_keeps_size_cache:
  "fst (TargetSize envOK
      (snd (waitForDeleteInstances envOK (False, Some (OpaqueError ''failed'')) [''a''] worldFresh)))
     = Returns (2, None)
   \<and> issued (snd (TargetSize envOK
      (snd (waitForDeleteInstances envOK (False, Some (OpaqueError ''failed'')) [''a''] worldFresh))))
     = []"
  by (simp add: sample_defs run_defs)

subsection \<open>Setting and increasing the size\<close>

lemma SetScaleSetSize_issues:
  assumes "held w = []"
    and "getVMSSInfo e (w\<lparr>held := [SizeMutex]\<rparr>) = (Returns (info, None), w1)"
    and "VmssSku info = Some sku"
  shows "SetScaleSetSize e n w =
     (let op = \<lparr>VmssName = VmssName info, VmssSku = Some (sku\<lparr>Capacity := Some n\<rparr>),
                Location = Location info\<rparr>;
          w2 = w1\<lparr>scaleSetStatusCache := (scaleSetStatusCache w1)
                    \<lparr>scaleSets := (scaleSets (scaleSetStatusCache w1))
                       (Name (scaleSet w) \<mapsto> info\<lparr>VmssSku := Some (sku\<lparr>Capacity := Some n\<rparr>)\<rparr>)\<rparr>,
                  calls := calls w1 @
                    [(CreateOrUpdateAsync (ResourceGroup e) (Name (scaleSet w)) op, [SizeMutex])]\<rparr>
      in case clientCreateOrUpdateAsync e (issued w2) of
           Some err \<Rightarrow> (Returns (Some err), w2\<lparr>held := []\<rparr>)
         | None \<Rightarrow>
             (Returns None,
              w2\<lparr>scaleSet := (scaleSet w)\<lparr>curSize := n, lastSizeRefresh := timeNow e (nowCalls w1)\<rparr>,
                 nowCalls := Suc (nowCalls w1),
                 spawned := spawned w @ [WaitForUpdateVMSSCapacity],
                 held := []\<rparr>))"
proof -
  from getVMSSInfo_frame [OF assms(2)] assms(1)
  have "scaleSet w1 = scaleSet w" and "held w1 = [SizeMutex]" and "spawned w1 = spawned w"
    by simp_all
  with assms show ?thesis
    by (simp add: SetScaleSetSize_def updateVMSSCapacity_def writeCapacity_def lockDefer_def
          lockThen_def Lock_def Unlock_def now_def issue_def issued_def Let_def
          split: option.splits)
qed

text \<open>
  Claim C1, as the code has it. \<^verbatim>\<open>SetScaleSetSize\<close> does not compare its argument with
  \<open>maxSize\<close>: for every \<open>n\<close>, once \<^verbatim>\<open>getVMSSInfo\<close> has returned the descriptor of the set
  (with its \<^verbatim>\<open>Sku\<close>), it issues \<^verbatim>\<open>CreateOrUpdateAsync\<close> for the set with the capacity \<open>n\<close>.
  When the backend accepts the call it returns \<^verbatim>\<open>nil\<close> with \<open>curSize = n\<close> and
  \<open>lastSizeRefresh\<close> the clock reading; when the backend refuses it returns that error
  and leaves \<open>curSize\<close> as it was.
\<close>

theorem SetScaleSetSize_no_bound_check:
  assumes "held w = []"
    and "getVMSSInfo e (w\<lparr>held := [SizeMutex]\<rparr>) = (Returns (info, None), w1)"
    and "VmssSku info = Some sku"
  shows "issued (snd (SetScaleSetSize e n w))
           = issued w1 @
             [CreateOrUpdateAsync (ResourceGroup e) (Name (scaleSet w))
                \<lparr>VmssName = VmssName info, VmssSku = Some (sku\<lparr>Capacity := Some n\<rparr>),
                 Location = Location info\<rparr>]
         \<and> (clientCreateOrUpdateAsync e (issued (snd (SetScaleSetSize e n w))) = None \<longrightarrow>
              fst (SetScaleSetSize e n w) = Returns None \<and>
              curSize (scaleSet (snd (SetScaleSetSize e n w))) = n \<and>
              lastSizeRefresh (scaleSet (snd (SetScaleSetSize e n w))) = timeNow e (nowCalls w1))
         \<and> (\<forall>err. clientCreateOrUpdateAsync e (issued (snd (SetScaleSetSize e n w))) = Some err \<longrightarrow>
              fst (SetScaleSetSize e n w) = Returns (Some err) \<and>
              curSize (scaleSet (snd (SetScaleSetSize e n w))) = curSize (scaleSet w))"
proof -
  from getVMSSInfo_frame [OF assms(2)] assms(1)
  have s: "scaleSet w1 = scaleSet w"
    by simp
  show ?thesis
    unfolding SetScaleSetSize_issues [OF assms]
    by (simp add: Let_def issued_def s split: option.splits)
qed

theorem SetScaleSetSize_no_bound_check_witness:
  "issued (snd (SetScaleSetSize envOK 5 worldFresh))
     = [List ''rg'', CreateOrUpdateAsync ''rg'' ''g1'' (vmssG1 5)]
   \<and> fst (SetScaleSetSize envOK 5 worldFresh) = Returns None
   \<and> curSize (scaleSet (snd (SetScaleSetSize envOK 5 worldFresh))) = 5
   \<and> lastSizeRefresh (scaleSet (snd (SetScaleSetSize envOK 5 worldFresh))) = 1002"
proof -
  have h: "held worldFresh = []"
    by (simp add: sample_defs)
  have g: "getVMSSInfo envOK (worldFresh\<lparr>held := [SizeMutex]\<rparr>)
             = (Returns (vmssG1 3, None), snd (getVMSSInfo envOK (worldFresh\<lparr>held := [SizeMutex]\<rparr>)))"
    by (simp add: sample_defs run_defs)
  have k: "VmssSku (vmssG1 3) = Some \<lparr>SkuName = Some ''Standard_D2'', Capacity = Some 3\<rparr>"
    by (simp add: vmssG1_def)
  from SetScaleSetSize_no_bound_check [OF h g k, of 5] show ?thesis
    by (simp add: sample_defs run_defs)
qed

text \<open>
  Claim C1, as the specification states it, fails: on the sample world, whose \<open>maxSize\<close>
  is 3, \<^verbatim>\<open>SetScaleSetSize(5)\<close> returns \<^verbatim>\<open>nil\<close>, has issued \<^verbatim>\<open>CreateOrUpdateAsync\<close> with the
  capacity 5 and has set \<open>curSize\<close> to 5.
\<close>

theorem SetScaleSetSize_above_maxSize:
  "maxSize (scaleSet worldFresh) = 3
   \<and> fst (SetScaleSetSize envOK 5 worldFresh) = Returns None
   \<and> issued (snd (SetScaleSetSize envOK 5 worldFresh))
       = [List ''rg'', CreateOrUpdateAsync ''rg'' ''g1'' (vmssG1 5)]
   \<and> curSize (scaleSet (snd (SetScaleSetSize envOK 5 worldFresh))) = 5"
  by (simp add: sample_defs run_defs)

text \<open>The checks of \<^verbatim>\<open>IncreaseSize\<close>, in the 64-bit arithmetic of the code, and what
  the comparison with \<open>maxSize\<close> means as long as the sum does not overflow.\<close>

lemma IncreaseSize_checks:
  assumes "GetScaleSetSize e w = (Returns (sz, None), w1)"
  shows "IncreaseSize e delta w =
           (if delta \<le>s 0 then (Returns (Some SizeIncreaseMustBePositive), w)
            else if sz = - 1 then (Returns (Some (UnderInitialization (Name (scaleSet w1)))), w1)
            else if maxSize (scaleSet w1) <s sz + delta
            then (Returns (Some (SizeIncreaseTooLarge (sz + delta) (maxSize (scaleSet w1)))), w1)
            else SetScaleSetSize e (sz + delta) w1)"
  using assms by (simp add: IncreaseSize_def)

lemma no_overflow_sless:
  fixes sz delta m :: int64
  assumes "sint sz + sint delta < 2 ^ 63" and "- (2 ^ 63) \<le> sint sz + sint delta"
  shows "m <s sz + delta \<longleftrightarrow> sint m < sint sz + sint delta"
proof -
  have "sint (sz + delta) = sint sz + sint delta"
    using assms by (simp add: sint_word_ariths signed_take_bit_int_eq_self)
  then show ?thesis by (simp add: word_sless_alt)
qed

lemma IncreaseSize_rejects_above_maxSize:
  assumes "GetScaleSetSize e w = (Returns (sz, None), w1)"
    and "0 < sint delta" and "sz \<noteq> - 1"
    and "sint sz + sint delta < 2 ^ 63" and "- (2 ^ 63) \<le> sint sz + sint delta"
    and "sint (maxSize (scaleSet w1)) < sint sz + sint delta"
  shows "IncreaseSize e delta w =
           (Returns (Some (SizeIncreaseTooLarge (sz + delta) (maxSize (scaleSet w1)))), w1)"
  using assms
  by (simp add: IncreaseSize_checks no_overflow_sless word_sle_eq)

text \<open>
  Claim C4 at an input where the sum overflows. The cached size is 2, \<open>maxSize\<close> is 3 and
  \<open>delta\<close> is the largest \<^verbatim>\<open>int\<close>: the sum of size and \<open>delta\<close> exceeds \<open>maxSize\<close>, but
  \<^verbatim>\<open>int(size)+delta\<close> wraps around to a negative number, the comparison with \<open>maxSize\<close>
  passes, and \<^verbatim>\<open>IncreaseSize\<close> returns \<^verbatim>\<open>nil\<close> after issuing \<^verbatim>\<open>CreateOrUpdateAsync\<close> with
  that negative capacity.
\<close>

theorem IncreaseSize_overflow:
  "sint (maxSize (scaleSet worldFresh))
     < sint (curSize (scaleSet worldFresh)) + sint (9223372036854775807 :: int64)
   \<and> fst (IncreaseSize envOK 9223372036854775807 worldFresh) = Returns None
   \<and> issued (snd (IncreaseSize envOK 9223372036854775807 worldFresh))
       = [List ''rg'', CreateOrUpdateAsync ''rg'' ''g1'' (vmssG1 (- 9223372036854775807))]"
  by (simp add: sample_defs run_defs)

subsection \<open>Deleting instances\<close>

lemma EqualFold_refl: "EqualFold s s"
  by (simp add: EqualFold_def)

lemma EqualFold_trans_sym: "EqualFold a g \<Longrightarrow> EqualFold c g \<Longrightarrow> EqualFold a c"
  by (simp add: EqualFold_def)

lemma getInstanceByProviderID_free:
  assumes "InstanceMutex \<notin> set (held w)"
  shows "getInstanceByProviderID providerID w
           = (Returns (findInstance (instanceCache (scaleSet w)) providerID), w)"
  using assms
  by (simp add: getInstanceByProviderID_def lockDefer_def Lock_def Unlock_def)

lemma deleteLoop_world:
  assumes "InstanceMutex \<notin> set (held w)"
  shows "snd (deleteLoop e c instances ids w) = w \<and> fst (deleteLoop e c instances ids w) \<noteq> Blocks"
  using assms
proof (induction instances arbitrary: ids)
  case Nil
  then show ?case by simp
next
  case (Cons i rest)
  from Cons.IH [OF Cons.prems] Cons.prems show ?case
    by (auto simp: getInstanceByProviderID_free split: prod.splits option.splits)
qed

lemma deleteLoop_success:
  assumes "InstanceMutex \<notin> set (held w)"
    and "fst (deleteLoop e c instances ids w) = Returns (ids', None)"
  shows "ids' = ids @ map (\<lambda>i. fst (getLastSegment e i))
                        (filter (\<lambda>i. \<not> cachedDeleting w i) instances)
         \<and> (\<forall>i \<in> set instances. \<exists>gi cid. GetAsgForInstance e i = (Some gi, None) \<and>
                c = Some cid \<and> EqualFold gi cid)"
  using assms
proof (induction instances arbitrary: ids)
  case Nil
  then show ?case by simp
next
  case (Cons i rest)
  show ?case
  proof (cases "cachedDeleting w i")
    case True
    with Cons.prems have "fst (deleteLoop e c rest ids w) = Returns (ids', None)"
      by (auto simp: getInstanceByProviderID_free cachedDeleting_def
               split: prod.splits option.splits if_splits)
    from Cons.IH [OF Cons.prems(1) this] Cons.prems True show ?thesis
      by (auto simp: getInstanceByProviderID_free cachedDeleting_def 
               split: prod.splits option.splits if_splits)
  next
    case False
    with Cons.prems
    have "fst (deleteLoop e c rest (ids @ [fst (getLastSegment e i)]) w) = Returns (ids', None)"
      by (auto simp: getInstanceByProviderID_free cachedDeleting_def
               split: prod.splits option.splits if_splits)
    from Cons.IH [OF Cons.prems(1) this] Cons.prems False show ?thesis
      by (auto simp: getInstanceByProviderID_free cachedDeleting_def
               split: prod.splits option.splits if_splits)
  qed
qed

lemma deleteLoop_no_panic:
  assumes "InstanceMutex \<notin> set (held w)"
    and "\<forall>i \<in> set instances. GetAsgForInstance e i \<noteq> (None, None)"
  shows "fst (deleteLoop e (Some cid) instances ids w) \<noteq> Panics"
  using assms
proof (induction instances arbitrary: ids)
  case Nil
  then show ?case by simp
next
  case (Cons i rest)
  then show ?case
    by (auto simp: getInstanceByProviderID_free split: prod.splits option.splits)
qed


lemma DeleteInstances_unfold:
  assumes "held w = []"
  shows "DeleteInstances e instances w =
     (case instances of
        [] \<Rightarrow> (Returns None, w)
      | first # _ \<Rightarrow>
          (case GetAsgForInstance e first of
             (commonAsg, Some err) \<Rightarrow> (Returns (Some err), w)
           | (commonAsg, None) \<Rightarrow>
               (case fst (deleteLoop e commonAsg instances [] w) of
                  Returns (ids, Some err) \<Rightarrow> (Returns (Some err), w)
                | Returns (ids, None) \<Rightarrow>
                    if ids = [] then (Returns None, w)
                    else
                      (case commonAsg of
                         None \<Rightarrow> (Panics, w\<lparr>held := [InstanceMutex]\<rparr>)
                       | Some g \<Rightarrow>
                           (let w1 = w\<lparr>calls := calls w @
                                  [(DeleteInstancesAsync (ResourceGroup e) g ids, [InstanceMutex])]\<rparr>
                            in case clientDeleteInstancesAsync e (issued w1) of
                                 Some err \<Rightarrow> (Returns (Some err), w1)
                               | None \<Rightarrow>
                                   (Returns None,
                                    w1\<lparr>scaleSet := (scaleSet w)
                                          \<lparr>curSize := curSize (scaleSet w) - of_nat (length ids)\<rparr>,
                                       spawned := spawned w @ [WaitForDeleteInstances ids]\<rparr>)))
                | Panics \<Rightarrow> (Panics, w)
                | Blocks \<Rightarrow> (Blocks, w))))"
proof -
  have m: "InstanceMutex \<notin> set (held w)"
    using assms by simp
  have d: "deleteLoop e c instances [] w = (fst (deleteLoop e c instances [] w), w)" for c
    using deleteLoop_world [OF m, of e c instances "[]"] by (simp add: prod_eq_iff)
  show ?thesis
    unfolding DeleteInstances_def
    apply (subst d)
    using assms
    by (auto simp: issueDelete_def decrementCurSize_def lockThen_def Lock_def Unlock_def
          issue_def issued_def Let_def
          split: list.splits prod.splits option.splits outcome.splits)
qed

lemma DeleteInstances_success:
  assumes "held w = []" and "DeleteInstances e instances w = (Returns None, w')"
    and "instances \<noteq> []"
  shows "\<exists>g. GetAsgForInstance e (hd instances) = (Some g, None)
           \<and> (\<forall>i \<in> set instances. \<exists>gi. GetAsgForInstance e i = (Some gi, None) \<and> EqualFold gi g)
           \<and> (let ids = map (\<lambda>i. fst (getLastSegment e i))
                            (filter (\<lambda>i. \<not> cachedDeleting w i) instances)
              in if ids = [] then w' = w
                 else w' = w\<lparr>calls := calls w @
                              [(DeleteInstancesAsync (ResourceGroup e) g ids, [InstanceMutex])],
                           scaleSet := (scaleSet w)
                              \<lparr>curSize := curSize (scaleSet w) - of_nat (length ids)\<rparr>,
                           spawned := spawned w @ [WaitForDeleteInstances ids]\<rparr>)"
proof -
  have m: "InstanceMutex \<notin> set (held w)"
    using assms(1) by simp
  obtain first rest where i: "instances = first # rest"
    using assms(3) by (cases instances) auto
  obtain c where c: "GetAsgForInstance e first = (c, None)"
    using assms(1,2) i
    by (cases "GetAsgForInstance e first")
       (auto simp: DeleteInstances_unfold split: option.splits)
  obtain ids where l: "fst (deleteLoop e c instances [] w) = Returns (ids, None)"
    using assms(1,2) i c
    by (auto simp: DeleteInstances_unfold Let_def 
             split: option.splits outcome.splits prod.splits if_splits)
  note s = deleteLoop_success [OF m l]
  from s i obtain g where g: "c = Some g"
    by auto
  from assms(1,2) i c l g s show ?thesis
    by (auto simp: DeleteInstances_unfold Let_def split: option.splits if_splits)
qed

text \<open>
  Claim C2, as the code has it. Whenever \<^verbatim>\<open>DeleteInstances\<close>, called by a goroutine that
  holds no mutex, returns \<^verbatim>\<open>nil\<close>, \<open>curSize\<close> has decreased (in 64-bit arithmetic) by the
  number of instances of the list that were not skipped, that is, whose cached state is
  not \<^verbatim>\<open>InstanceDeleting\<close>: the number of ids submitted to the backend. In particular it
  has not changed when every instance was skipped.
\<close>

theorem DeleteInstances_decrements_by_submitted:
  assumes "held w = []" and "DeleteInstances e instances w = (Returns None, w')"
  shows "curSize (scaleSet w')
           = curSize (scaleSet w)
             - of_nat (length (filter (\<lambda>i. \<not> cachedDeleting w i) instances))"
proof (cases "instances = []")
  case True
  with assms show ?thesis
    by (simp add: DeleteInstances_def)
next
  case False
  let ?ids = "map (\<lambda>i. fst (getLastSegment e i))
                (filter (\<lambda>i. \<not> cachedDeleting w i) instances)"
  from DeleteInstances_success [OF assms False]
  have w: "if ?ids = [] then w' = w
           else w' = w\<lparr>calls := calls w @
                        [(DeleteInstancesAsync (ResourceGroup e)
                            (the (fst (GetAsgForInstance e (hd instances)))) ?ids, [InstanceMutex])],
                      scaleSet := (scaleSet w)
                        \<lparr>curSize := curSize (scaleSet w) - of_nat (length ?ids)\<rparr>,
                      spawned := spawned w @ [WaitForDeleteInstances ?ids]\<rparr>"
    by (auto simp: Let_def)
  show ?thesis
  proof (cases "?ids = []")
    case True
    with w show ?thesis by simp
  next
    case False
    with w show ?thesis by simp
  qed
qed

theorem DeleteInstances_decrements_by_submitted_witness:
  "curSize (scaleSet (snd (DeleteInstances envOK [''azure://vm/a'', ''azure://vm/b''] worldDeleting)))
     = 5 - 1"
proof -
  have h: "held worldDeleting = []"
    by (simp add: sample_defs)
  have r: "DeleteInstances envOK [''azure://vm/a'', ''azure://vm/b''] worldDeleting
             = (Returns None,
                snd (DeleteInstances envOK [''azure://vm/a'', ''azure://vm/b''] worldDeleting))"
    by (simp add: sample_defs run_defs)
  from DeleteInstances_decrements_by_submitted [OF h r] show ?thesis
    by (simp add: sample_defs cachedDeleting_def)
qed

text \<open>
  Claim C2, as the specification states it, fails: with \<open>b\<close> cached as deleting, deleting
  the two instances \<open>a\<close> and \<open>b\<close> succeeds and takes \<open>curSize\<close> from 5 to 4, not to 3, and
  deleting \<open>b\<close> alone succeeds and leaves \<open>curSize\<close> at 5.
\<close>

theorem DeleteInstances_skipped_not_counted:
  "fst (DeleteInstances envOK [''azure://vm/a'', ''azure://vm/b''] worldDeleting) = Returns None
   \<and> curSize (scaleSet worldDeleting) = 5
   \<and> curSize (scaleSet (snd (DeleteInstances envOK [''azure://vm/a'', ''azure://vm/b''] worldDeleting))) = 4
   \<and> fst (DeleteInstances envOK [''azure://vm/b''] worldDeleting) = Returns None
   \<and> curSize (scaleSet (snd (DeleteInstances envOK [''azure://vm/b''] worldDeleting))) = 5"
  by (simp add: sample_defs run_defs)



text \<open>Instances of two groups in one list: the call does not succeed and changes nothing,
  and it returns an error unless the manager resolves an instance of the list to no group
  at all.\<close>

lemma deleteLoop_mixed_groups:
  assumes "InstanceMutex \<notin> set (held w)"
    and "a \<in> set instances" and "GetAsgForInstance e a = (Some ga, None)"
    and "c \<in> set instances" and "GetAsgForInstance e c = (Some gc, None)"
    and "\<not> EqualFold ga gc"
  shows "fst (deleteLoop e cg instances ids w) \<noteq> Returns (ids', None)"
proof
  assume "fst (deleteLoop e cg instances ids w) = Returns (ids', None)"
  from deleteLoop_success [OF assms(1) this]
  have s: "\<forall>i \<in> set instances. \<exists>gi cid. GetAsgForInstance e i = (Some gi, None) \<and>
             cg = Some cid \<and> EqualFold gi cid"
    by simp
  from s assms(2,3) obtain cid where "cg = Some cid" and "EqualFold ga cid"
    by fastforce
  moreover from s assms(4,5) obtain cid' where "cg = Some cid'" and "EqualFold gc cid'"
    by fastforce
  ultimately have "EqualFold ga gc"
    by (auto intro: EqualFold_trans_sym)
  with assms(6) show False by simp
qed

lemma DeleteInstances_mixed_groups:
  assumes "held w = []"
    and "a \<in> set instances" and "GetAsgForInstance e a = (Some ga, None)"
    and "c \<in> set instances" and "GetAsgForInstance e c = (Some gc, None)"
    and "\<not> EqualFold ga gc"
  shows "snd (DeleteInstances e instances w) = w
         \<and> fst (DeleteInstances e instances w) \<noteq> Returns None
         \<and> ((\<forall>i \<in> set instances. GetAsgForInstance e i \<noteq> (None, None)) \<longrightarrow>
              (\<exists>err. fst (DeleteInstances e instances w) = Returns (Some err)))"
proof -
  have m: "InstanceMutex \<notin> set (held w)"
    using assms(1) by simp
  obtain first rest where i: "instances = first # rest"
    using assms(2) by (cases instances) auto
  obtain cg cerr where f: "GetAsgForInstance e first = (cg, cerr)"
    by (cases "GetAsgForInstance e first")
  show ?thesis
  proof (cases cerr)
    case (Some err)
    with f i show ?thesis
      by (simp add: DeleteInstances_unfold [OF assms(1)])
  next
    case None
    define r where "r = fst (deleteLoop e cg instances [] w)"
    have nr: "r \<noteq> Returns (ids', None)" for ids'
      unfolding r_def using m assms(2-6) by (rule deleteLoop_mixed_groups)
    have nb: "r \<noteq> Blocks"
      unfolding r_def using deleteLoop_world [OF m] by simp
    have p: "(\<forall>i \<in> set instances. GetAsgForInstance e i \<noteq> (None, None)) \<longrightarrow> r \<noteq> Panics"
    proof
      assume all: "\<forall>i \<in> set instances. GetAsgForInstance e i \<noteq> (None, None)"
      with f None i obtain g where "cg = Some g"
        by (cases cg) auto
      with deleteLoop_no_panic [OF m all] show "r \<noteq> Panics"
        by (simp add: r_def)
    qed
    have d: "DeleteInstances e instances w =
               (case GetAsgForInstance e first of
                  (commonAsg, Some err) \<Rightarrow> (Returns (Some err), w)
                | (commonAsg, None) \<Rightarrow>
                    (case fst (deleteLoop e commonAsg instances [] w) of
                       Returns (ids, Some err) \<Rightarrow> (Returns (Some err), w)
                     | Returns (ids, None) \<Rightarrow>
                         if ids = [] then (Returns None, w)
                         else
                           (case commonAsg of
                              None \<Rightarrow> (Panics, w\<lparr>held := [InstanceMutex]\<rparr>)
                            | Some g \<Rightarrow>
                                (let w1 = w\<lparr>calls := calls w @
                                       [(DeleteInstancesAsync (ResourceGroup e) g ids,
                                         [InstanceMutex])]\<rparr>
                                 in case clientDeleteInstancesAsync e (issued w1) of
                                      Some err \<Rightarrow> (Returns (Some err), w1)
                                    | None \<Rightarrow>
                                        (Returns None,
                                         w1\<lparr>scaleSet := (scaleSet w)
                                               \<lparr>curSize := curSize (scaleSet w)
                                                    - of_nat (length ids)\<rparr>,
                                            spawned := spawned w @ [WaitForDeleteInstances ids]\<rparr>)))
                     | Panics \<Rightarrow> (Panics, w)
                     | Blocks \<Rightarrow> (Blocks, w)))"
      unfolding DeleteInstances_unfold [OF assms(1)]
      by (subst (1) i) (simp only: list.case)
    have d2: "DeleteInstances e instances w =
               (case r of
                  Returns (ids, Some err) \<Rightarrow> (Returns (Some err), w)
                | Returns (ids, None) \<Rightarrow> (Returns None, w)
                | Panics \<Rightarrow> (Panics, w)
                | Blocks \<Rightarrow> (Blocks, w))"
    proof (cases r)
      case (Returns x)
      obtain ids oerr where x: "x = (ids, oerr)"
        by (cases x)
      with nr Returns obtain err where "oerr = Some err"
        by (cases oerr) auto
      with Returns x show ?thesis
        unfolding d f None by (simp add: r_def [symmetric] del: deleteLoop.simps)
    next
      case Panics
      then show ?thesis
        unfolding d f None by (simp add: r_def [symmetric] del: deleteLoop.simps)
    next
      case Blocks
      then show ?thesis
        unfolding d f None by (simp add: r_def [symmetric] del: deleteLoop.simps)
    qed
    show ?thesis
    proof (cases r)
      case (Returns x)
      obtain ids oerr where x: "x = (ids, oerr)"
        by (cases x)
      with nr Returns obtain err where "oerr = Some err"
        by (cases oerr) auto
      with Returns x show ?thesis
        unfolding d2 by simp
    next
      case Panics
      with p show ?thesis
        unfolding d2 by simp
    next
      case Blocks
      with nb show ?thesis
        by simp
    qed
  qed
qed

text \<open>
  Claim C5 at a list where the manager knows no group for the first instance. The list
  holds \<open>a\<close> of \<open>g1\<close> and \<open>c\<close> of \<open>g2\<close>, two instances resolved to different groups, after
  \<open>n\<close>, for which \<^verbatim>\<open>GetAsgForInstance\<close> answers \<^verbatim>\<open>nil, nil\<close>: \<^verbatim>\<open>DeleteInstances\<close> calls
  \<^verbatim>\<open>Id()\<close> on the \<^verbatim>\<open>nil\<close> node group and panics instead of returning an error. (No delete
  call is issued and \<open>curSize\<close> is unchanged.)
\<close>

theorem DeleteInstances_nil_group_panics:
  "GetAsgForInstance envOK ''azure://vm/n'' = (None, None)
   \<and> GetAsgForInstance envOK ''azure://vm/a'' = (Some ''g1'', None)
   \<and> GetAsgForInstance envOK ''azure://vm/c'' = (Some ''g2'', None)
   \<and> \<not> EqualFold ''g1'' ''g2''
   \<and> DeleteInstances envOK [''azure://vm/n'', ''azure://vm/a'', ''azure://vm/c''] worldDeleting
       = (Panics, worldDeleting)"
  by (simp add: sample_defs run_defs)

subsection \<open>Deleting nodes\<close>

lemma Belongs_iff:
  "Belongs e node w = (True, None) \<longleftrightarrow>
     (\<exists>g. GetAsgForInstance e (ProviderID node) = (Some g, None)
          \<and> EqualFold g (Name (scaleSet w)))"
  by (auto simp: Belongs_def Id_ScaleSet_def split: prod.splits option.splits)

lemma nodeRefs_all_belong:
  assumes "\<forall>n \<in> set nodes. Belongs e n w = (True, None)"
  shows "nodeRefs e nodes refs w = (refs @ map ProviderID nodes, None)"
  using assms by (induction nodes arbitrary: refs) simp_all

lemma nodeRefs_some_foreign:
  assumes "\<exists>n \<in> set nodes. Belongs e n w \<noteq> (True, None)"
  shows "\<exists>rs err. nodeRefs e nodes refs w = (rs, Some err)"
  using assms
proof (induction nodes arbitrary: refs)
  case Nil
  then show ?case by simp
next
  case (Cons n rest)
  show ?case
  proof (cases "Belongs e n w = (True, None)")
    case True
    with Cons.prems have "\<exists>n \<in> set rest. Belongs e n w \<noteq> (True, None)"
      by auto
    from Cons.IH [OF this, of "refs @ [ProviderID n]"] True show ?thesis
      by simp
  next
    case False
    then show ?thesis
      by (cases "Belongs e n w") (auto split: option.splits)
  qed
qed

text \<open>
  Claim C6. Let \<^verbatim>\<open>GetScaleSetSize\<close> have returned the size \<open>sz\<close> to \<^verbatim>\<open>DeleteNodes\<close>, called by
  a goroutine that holds no mutex. If \<open>sz \<le> minSize\<close> then \<^verbatim>\<open>DeleteNodes\<close> returns the error
  "min size reached" and has issued no backend call except, possibly, the \<^verbatim>\<open>List\<close> of the
  size refresh: no delete call. Otherwise, if every node belongs to this set it returns
  what \<^verbatim>\<open>DeleteInstances\<close> returns for the provider ids of the nodes, and if some node
  does not, it returns an error without going further. A node belongs to the set when the
  manager resolves its provider id to a group whose id equals the set's name up to case.
\<close>

theorem DeleteNodes_guard_and_delegation:
  assumes "held w = []" and "GetScaleSetSize e w = (Returns (sz, None), w1)"
  shows "(sz \<le>s minSize (scaleSet w) \<longrightarrow>
            DeleteNodes e nodes w = (Returns (Some MinSizeReached), w1) \<and>
            (issued w1 = issued w \<or> issued w1 = issued w @ [List (ResourceGroup e)]))
         \<and> (\<not> sz \<le>s minSize (scaleSet w) \<longrightarrow>
              ((\<forall>n \<in> set nodes. Belongs e n w1 = (True, None)) \<longrightarrow>
                 DeleteNodes e nodes w = DeleteInstances e (map ProviderID nodes) w1) \<and>
              ((\<exists>n \<in> set nodes. Belongs e n w1 \<noteq> (True, None)) \<longrightarrow>
                 (\<exists>err. DeleteNodes e nodes w = (Returns (Some err), w1))))
         \<and> (\<forall>n. Belongs e n w1 = (True, None) \<longleftrightarrow>
                 (\<exists>g. GetAsgForInstance e (ProviderID n) = (Some g, None)
                      \<and> EqualFold g (Name (scaleSet w))))"
proof -
  from assms(2) have g: "getCurSize e w = (Returns (sz, None), w1)"
    by (simp add: GetScaleSetSize_def)
  note f = getCurSize_frame [OF g assms(1)]
  from f have m: "minSize (scaleSet w1) = minSize (scaleSet w)"
    and n: "Name (scaleSet w1) = Name (scaleSet w)"
    and c: "calls w1 = calls w \<or>
            calls w1 = calls w @ [(List (ResourceGroup e), [StatusCacheMutex, SizeMutex])]"
    by simp_all
  have a: "sz \<le>s minSize (scaleSet w) \<longrightarrow>
            DeleteNodes e nodes w = (Returns (Some MinSizeReached), w1) \<and>
            (issued w1 = issued w \<or> issued w1 = issued w @ [List (ResourceGroup e)])"
    using assms(2) m c by (auto simp: DeleteNodes_def issued_def)
  have b1: "\<not> sz \<le>s minSize (scaleSet w) \<longrightarrow> (\<forall>n \<in> set nodes. Belongs e n w1 = (True, None)) \<longrightarrow>
                 DeleteNodes e nodes w = DeleteInstances e (map ProviderID nodes) w1"
    using assms(2) m by (simp add: DeleteNodes_def nodeRefs_all_belong)
  have b2: "\<not> sz \<le>s minSize (scaleSet w) \<longrightarrow> (\<exists>n \<in> set nodes. Belongs e n w1 \<noteq> (True, None)) \<longrightarrow>
                 (\<exists>err. DeleteNodes e nodes w = (Returns (Some err), w1))"
  proof (intro impI)
    assume s: "\<not> sz \<le>s minSize (scaleSet w)"
      and "\<exists>n \<in> set nodes. Belongs e n w1 \<noteq> (True, None)"
    from nodeRefs_some_foreign [OF this(2), of "[]"] obtain rs err
      where "nodeRefs e nodes [] w1 = (rs, Some err)"
      by blast
    with assms(2) m s show "\<exists>err. DeleteNodes e nodes w = (Returns (Some err), w1)"
      by (simp add: DeleteNodes_def)
  qed
  from a b1 b2 show ?thesis
    by (simp add: Belongs_iff n)
qed

theorem DeleteNodes_guard_and_delegation_witness:
  "DeleteNodes envOK [\<lparr>NodeName = ''node-a'', ProviderID = ''azure://vm/a''\<rparr>]
      (worldFresh\<lparr>scaleSet := (scaleSet worldFresh)\<lparr>minSize := 2\<rparr>\<rparr>)
     = (Returns (Some MinSizeReached),
        worldFresh\<lparr>scaleSet := (scaleSet worldFresh)\<lparr>minSize := 2\<rparr>, nowCalls := 1\<rparr>)
   \<and> fst (DeleteNodes envOK [\<lparr>NodeName = ''node-a'', ProviderID = ''azure://vm/a''\<rparr>] worldDeleting)
       = Returns None
   \<and> issued (snd (DeleteNodes envOK [\<lparr>NodeName = ''node-a'', ProviderID = ''azure://vm/a''\<rparr>]
                      worldDeleting))
       = [DeleteInstancesAsync ''rg'' ''g1'' [''a'']]
   \<and> (\<exists>err. fst (DeleteNodes envOK [\<lparr>NodeName = ''node-c'', ProviderID = ''azure://vm/c''\<rparr>]
                      worldDeleting) = Returns (Some err))"
proof -
  let ?wm = "worldFresh\<lparr>scaleSet := (scaleSet worldFresh)\<lparr>minSize := 2\<rparr>\<rparr>"
  have h1: "held ?wm = []" and h2: "held worldDeleting = []"
    by (simp_all add: sample_defs)
  have g1: "GetScaleSetSize envOK ?wm = (Returns (2, None), ?wm\<lparr>nowCalls := 1\<rparr>)"
    by (simp add: sample_defs run_defs)
  have g2: "GetScaleSetSize envOK worldDeleting = (Returns (5, None), worldDeleting\<lparr>nowCalls := 1\<rparr>)"
    by (simp add: sample_defs run_defs)
  note a = DeleteNodes_guard_and_delegation [OF h1 g1,
      of "[\<lparr>NodeName = ''node-a'', ProviderID = ''azure://vm/a''\<rparr>]", THEN conjunct1]
  note b = DeleteNodes_guard_and_delegation [OF h2 g2,
      of "[\<lparr>NodeName = ''node-a'', ProviderID = ''azure://vm/a''\<rparr>]",
      THEN conjunct2, THEN conjunct1]
  note c = DeleteNodes_guard_and_delegation [OF h2 g2,
      of "[\<lparr>NodeName = ''node-c'', ProviderID = ''azure://vm/c''\<rparr>]",
      THEN conjunct2, THEN conjunct1]
  have "DeleteNodes envOK [\<lparr>NodeName = ''node-a'', ProviderID = ''azure://vm/a''\<rparr>] ?wm
     = (Returns (Some MinSizeReached), ?wm\<lparr>nowCalls := 1\<rparr>)"
    using a by (simp add: sample_defs word_sle_eq)
  moreover have "DeleteNodes envOK [\<lparr>NodeName = ''node-a'', ProviderID = ''azure://vm/a''\<rparr>] worldDeleting
     = DeleteInstances envOK [''azure://vm/a''] (worldDeleting\<lparr>nowCalls := 1\<rparr>)"
    using b by (simp add: sample_defs word_sle_eq Belongs_def Id_ScaleSet_def EqualFold_def toLower_def)
  then have "fst (DeleteNodes envOK [\<lparr>NodeName = ''node-a'', ProviderID = ''azure://vm/a''\<rparr>] worldDeleting)
       = Returns None
   \<and> issued (snd (DeleteNodes envOK [\<lparr>NodeName = ''node-a'', ProviderID = ''azure://vm/a''\<rparr>]
                      worldDeleting))
       = [DeleteInstancesAsync ''rg'' ''g1'' [''a'']]"
    by (simp add: sample_defs run_defs)
  moreover have "\<exists>err. fst (DeleteNodes envOK [\<lparr>NodeName = ''node-c'', ProviderID = ''azure://vm/c''\<rparr>]
                      worldDeleting) = Returns (Some err)"
    using c by (auto simp add: sample_defs word_sle_eq Belongs_def Id_ScaleSet_def EqualFold_def
                   toLower_def)
  ultimately show ?thesis
    by blast
qed

subsection \<open>Rebuilding the instance cache\<close>





end
